theory Spec2Isabelle
  imports Main "HOL-Library.Extended_Nat"
begin

chapter \<open>The model\<close>

section \<open>JavaScript values used by the services\<close>

text \<open>
  JavaScript strings are modelled as \<open>string\<close>. The source's Chinese message literals
  are written as ASCII glosses of the same meaning; no property below depends on their
  text beyond being non-empty.
\<close>

type_synonym path = string
type_synonym bytes = string

text \<open>\<open>String.prototype.split(sep)\<close> for a one-character separator: the result always
  has at least one element (\<open>''''.split('.')\<close> is \<open>['''']\<close>).\<close>

primrec split_char :: "char \<Rightarrow> string \<Rightarrow> string list" where
  "split_char c [] = [[]]"
| "split_char c (x # xs) =
     (if x = c then [] # split_char c xs
      else (case split_char c xs of
              [] \<Rightarrow> [[x]]
            | w # ws \<Rightarrow> (x # w) # ws))"

definition is_digit :: "char \<Rightarrow> bool" where
  "is_digit c = (c \<in> set ''0123456789'')"

definition digit_val :: "char \<Rightarrow> nat" where
  "digit_val c = of_char c - 48"

text \<open>The mathematical value of a string of decimal digits, most significant first.\<close>

definition dec_value :: "string \<Rightarrow> nat" where
  "dec_value s = foldl (\<lambda>acc c. 10 * acc + digit_val c) 0 s"

fun bit_length :: "nat \<Rightarrow> nat" where
  "bit_length n = (if n = 0 then 0 else Suc (bit_length (n div 2)))"

text \<open>
  The Number value of a non-negative integer: the nearest IEEE 754 double, ties to the
  even significand, and \<open>Infinity\<close> from \<open>2 ^ 1024\<close> on. Integers below \<open>2 ^ 53\<close>
  are exact. (For literals of more than 20 significant digits ECMAScript lets an engine
  round from the first 20; the correctly rounded value is the one modelled.)
\<close>

definition to_double :: "nat \<Rightarrow> enat" where
  "to_double n =
     (if n < 2 ^ 53 then enat n
      else let e = bit_length n - 53;
               q = n div 2 ^ e;
               r = n mod 2 ^ e;
               half = 2 ^ (e - 1);
               q' = (if half < r \<or> (r = half \<and> odd q) then q + 1 else q);
               v = q' * 2 ^ e
           in if 2 ^ 1024 \<le> v then \<infinity> else enat v)"

text \<open>
  A JavaScript number as far as the version comparator can see one: \<open>NaN\<close>, or a
  non-negative value up to \<open>Infinity\<close>.
\<close>

datatype jsnum = NaN | Num enat

text \<open>
  \<open>Number(s)\<close> on one component of a split string. A string of decimal digits has its
  rounded value and the empty string is \<open>0\<close>. Every other string is mapped to \<open>NaN\<close>:
  that is what \<open>Number\<close> gives for text such as \<open>beta\<close>, while the remaining numeric
  literal forms (sign, exponent, radix prefix, surrounding white space, \<open>Infinity\<close>)
  do not occur in a dotted-numeric string and are not distinguished here.
\<close>

definition Number :: "string \<Rightarrow> jsnum" where
  "Number s =
     (if s = [] then Num 0
      else if list_all is_digit s then Num (to_double (dec_value s))
      else NaN)"

text \<open>An array read \<open>p[i]\<close>: \<open>undefined\<close> (here \<open>None\<close>) out of range.\<close>

definition at_index :: "'a list \<Rightarrow> nat \<Rightarrow> 'a option" where
  "at_index xs i = (if i < length xs then Some (xs ! i) else None)"

text \<open>\<open>x || 0\<close> on such a read: \<open>undefined\<close>, \<open>NaN\<close> and \<open>0\<close> are falsy.\<close>

fun or_zero :: "jsnum option \<Rightarrow> enat" where
  "or_zero None = 0"
| "or_zero (Some NaN) = 0"
| "or_zero (Some (Num v)) = v"

section \<open>CoreUpdateService: version comparison\<close>

text \<open>The \<open>for\<close> loop of \<open>compareVersions\<close>, from index \<open>i\<close> on.\<close>

function compareVersions_loop :: "jsnum list \<Rightarrow> jsnum list \<Rightarrow> nat \<Rightarrow> int" where
  "compareVersions_loop p1 p2 i =
     (if i < max (length p1) (length p2) then
        (let n1 = or_zero (at_index p1 i);
             n2 = or_zero (at_index p2 i)
         in if n1 > n2 then 1
            else if n1 < n2 then - 1
            else compareVersions_loop p1 p2 (i + 1))
      else 0)"
  by pat_completeness auto
termination
  by (relation "measure (\<lambda>(p1, p2, i). max (length p1) (length p2) - i)") auto

declare compareVersions_loop.simps [simp del]

definition compareVersions :: "string \<Rightarrow> string \<Rightarrow> int" where
  "compareVersions v1 v2 =
     compareVersions_loop (map Number (split_char CHR ''.'' v1))
                          (map Number (split_char CHR ''.'' v2)) 0"

text \<open>
  The comparison in the specification's words: both component lists are padded with
  zeros to the same length and compared left to right; the first pair that differs
  decides.
\<close>

definition pad_zero :: "nat \<Rightarrow> 'a::zero list \<Rightarrow> 'a list" where
  "pad_zero n xs = xs @ replicate (n - length xs) 0"

fun first_difference :: "('a::linorder \<times> 'a) list \<Rightarrow> int" where
  "first_difference [] = 0"
| "first_difference ((a, b) # r) =
     (if a > b then 1 else if a < b then - 1 else first_difference r)"

definition spec_compare :: "'a::{zero,linorder} list \<Rightarrow> 'a list \<Rightarrow> int" where
  "spec_compare xs ys =
     (let n = max (length xs) (length ys)
      in first_difference (zip (pad_zero n xs) (pad_zero n ys)))"

text \<open>A dotted-numeric version string: non-empty runs of decimal digits separated by dots.\<close>

definition dotted_numeric :: "string \<Rightarrow> bool" where
  "dotted_numeric v = list_all (\<lambda>c. c \<noteq> [] \<and> list_all is_digit c) (split_char CHR ''.'' v)"

definition components :: "string \<Rightarrow> nat list" where
  "components v = map dec_value (split_char CHR ''.'' v)"

definition safe_components :: "string \<Rightarrow> bool" where
  "safe_components v = list_all (\<lambda>n. n < 2 ^ 53) (components v)"

text \<open>The values the loop reads from a parsed list: each element after \<open>|| 0\<close>.\<close>

definition vals :: "jsnum list \<Rightarrow> enat list" where
  "vals p = map (\<lambda>x. or_zero (Some x)) p"

section \<open>SpeedTestService: configuration synthesis\<close>

text \<open>
  \<open>ServerConfig\<close> is declared outside the files at hand; the record has the fields
  \<open>generateTempConfig\<close> reads, an optional property being an \<open>option\<close>
  (\<open>None\<close> for \<open>undefined\<close>).
\<close>

record ws_headers =
  Host :: "string option"

record ws_settings =
  ws_path :: "string option"
  headers :: "ws_headers option"

record obfs_settings =
  obfs_type :: "string option"
  obfs_password :: "string option"

record hysteria2_settings =
  obfs :: "obfs_settings option"

record shadowsocks_settings =
  ss_method :: "string option"
  ss_password :: "string option"

record tls_settings =
  serverName :: "string option"
  allowInsecure :: "bool option"
  alpn :: "string list option"

record reality_settings =
  publicKey :: "string option"
  shortId :: "string option"

record ServerConfig =
  server_id :: string
  server_name :: string
  protocol :: string
  address :: string
  port :: nat
  uuid :: "string option"
  flow :: "string option"
  network :: "string option"
  wsSettings :: "ws_settings option"
  password :: "string option"
  hysteria2Settings :: "hysteria2_settings option"
  shadowsocksSettings :: "shadowsocks_settings option"
  security :: "string option"
  tlsSettings :: "tls_settings option"
  realitySettings :: "reality_settings option"

text \<open>
  The synthesized document, as \<open>JSON.stringify\<close> writes it to the core's standard
  input: a property whose value is \<open>undefined\<close> is absent (\<open>None\<close>).
\<close>

record transport_headers =
  header_Host :: string

record transport_config =
  transport_type :: string
  transport_path :: "string option"
  transport_headers :: "transport_headers option"

record obfs_config =
  out_obfs_type :: "string option"
  out_obfs_password :: "string option"

record reality_config =
  reality_enabled :: bool
  public_key :: "string option"
  short_id :: string

record tls_config =
  tls_enabled :: bool
  tls_server_name :: string
  insecure :: bool
  tls_alpn :: "string list option"
  reality :: "reality_config option"

record outbound_config =
  out_type :: string
  out_tag :: string
  out_server :: string
  out_server_port :: nat
  out_uuid :: "string option"
  out_flow :: "string option"
  transport :: "transport_config option"
  out_password :: "string option"
  out_obfs :: "obfs_config option"
  out_method :: "string option"
  tls :: "tls_config option"

record inbound_config =
  in_type :: string
  in_tag :: string
  listen :: string
  listen_port :: nat

record temp_config =
  log_level :: string
  inbounds :: "inbound_config list"
  outbounds :: "outbound_config list"

text \<open>\<open>toLowerCase\<close> on the ASCII letters (the protocol names are ASCII).\<close>

definition to_lower_char :: "char \<Rightarrow> char" where
  "to_lower_char c =
     (case map_of (zip ''ABCDEFGHIJKLMNOPQRSTUVWXYZ'' ''abcdefghijklmnopqrstuvwxyz'') c of
        None \<Rightarrow> c
      | Some l \<Rightarrow> l)"

definition toLowerCase :: "string \<Rightarrow> string" where
  "toLowerCase s = map to_lower_char s"

text \<open>Truthiness of an optional string, and \<open>x || d\<close> on one.\<close>

definition truthy :: "string option \<Rightarrow> bool" where
  "truthy x = (case x of None \<Rightarrow> False | Some s \<Rightarrow> s \<noteq> [])"

definition or_else :: "string option \<Rightarrow> string \<Rightarrow> string" where
  "or_else x d = (case x of None \<Rightarrow> d | Some s \<Rightarrow> if s = [] then d else s)"

text \<open>
  The transport block that the \<open>vless\<close> and \<open>trojan\<close> branches both build:
  \<open>if (server.network) { transport = {type}; if (network === 'ws' && wsSettings) ... }\<close>.
\<close>

definition ws_transport :: "ServerConfig \<Rightarrow> transport_config option" where
  "ws_transport server =
     (case network server of
        None \<Rightarrow> None
      | Some net \<Rightarrow>
          if net = [] then None
          else
            (let t = \<lparr> transport_type = net,
                       transport_path = None, transport_headers = None \<rparr>
             in case wsSettings server of
                  None \<Rightarrow> Some t
                | Some ws \<Rightarrow>
                    if net = ''ws'' then
                      (let t1 = t \<lparr> transport_path := Some (or_else (ws_path ws) ''/'') \<rparr>
                       in case headers ws of
                            None \<Rightarrow> Some t1
                          | Some h \<Rightarrow>
                              (case Host h of
                                 None \<Rightarrow> Some t1
                               | Some host \<Rightarrow>
                                   if host = [] then Some t1
                                   else Some (t1 \<lparr> transport_headers :=
                                                      Some \<lparr> header_Host = host \<rparr> \<rparr>)))
                    else Some t))"

text \<open>The protocol-specific part of \<open>generateTempConfig\<close>.\<close>

definition protocol_outbound :: "ServerConfig \<Rightarrow> outbound_config" where
  "protocol_outbound server =
     (let protocol = toLowerCase (protocol server);
          outbound = \<lparr> out_type = protocol, out_tag = ''proxy'',
                       out_server = address server, out_server_port = port server,
                       out_uuid = None, out_flow = None, transport = None,
                       out_password = None, out_obfs = None, out_method = None,
                       tls = None \<rparr>
      in if protocol = ''vless'' then
           outbound \<lparr> out_uuid := uuid server,
                      out_flow := Some (or_else (flow server) []),
                      transport := ws_transport server \<rparr>
         else if protocol = ''trojan'' then
           outbound \<lparr> out_password := password server,
                      transport := ws_transport server \<rparr>
         else if protocol = ''hysteria2'' then
           (let o1 = outbound \<lparr> out_password := password server \<rparr>
            in case hysteria2Settings server of
                 None \<Rightarrow> o1
               | Some h \<Rightarrow>
                   (case obfs h of
                      None \<Rightarrow> o1
                    | Some ob \<Rightarrow>
                        o1 \<lparr> out_obfs := Some \<lparr> out_obfs_type = obfs_type ob,
                                                 out_obfs_password = obfs_password ob \<rparr> \<rparr>))
         else if protocol = ''shadowsocks'' then
           outbound \<lparr> out_method :=
                        Some (or_else (case shadowsocksSettings server of
                                         None \<Rightarrow> None | Some s \<Rightarrow> ss_method s)
                                      ''aes-256-gcm''),
                      out_password :=
                        Some (or_else (case shadowsocksSettings server of
                                         None \<Rightarrow> None | Some s \<Rightarrow> ss_password s)
                                      []) \<rparr>
         else outbound)"

text \<open>The TLS block, for \<open>security\<close> \<open>tls\<close> or \<open>reality\<close>.\<close>

definition tls_block :: "ServerConfig \<Rightarrow> tls_config option" where
  "tls_block server =
     (if security server = Some ''tls'' \<or> security server = Some ''reality'' then
        (let ts = tlsSettings server;
             t = \<lparr> tls_enabled = True,
                   tls_server_name =
                     or_else (case ts of None \<Rightarrow> None | Some s \<Rightarrow> serverName s)
                             (address server),
                   insecure =
                     (case ts of None \<Rightarrow> False
                      | Some s \<Rightarrow> (case allowInsecure s of None \<Rightarrow> False | Some b \<Rightarrow> b)),
                   tls_alpn = (case ts of None \<Rightarrow> None | Some s \<Rightarrow> alpn s),
                   reality = None \<rparr>
         in case realitySettings server of
              None \<Rightarrow> Some t
            | Some r \<Rightarrow>
                if security server = Some ''reality''
                then Some (t \<lparr> reality :=
                                  Some \<lparr> reality_enabled = True,
                                         public_key = publicKey r,
                                         short_id = or_else (shortId r) [] \<rparr> \<rparr>)
                else Some t)
      else None)"

definition generateTempConfig :: "ServerConfig \<Rightarrow> nat \<Rightarrow> temp_config" where
  "generateTempConfig server p =
     (let outbound = (protocol_outbound server) \<lparr> tls := tls_block server \<rparr>
      in \<lparr> log_level = ''error'',
           inbounds = [\<lparr> in_type = ''socks'', in_tag = ''socks-in'',
                         listen = ''127.0.0.1'', listen_port = p \<rparr>],
           outbounds = [outbound] \<rparr>)"

text \<open>
  A server profile has a websocket transport configured when \<open>network\<close> is \<open>ws\<close>
  and \<open>wsSettings\<close> is present.
\<close>

definition ws_configured :: "ServerConfig \<Rightarrow> bool" where
  "ws_configured server = (network server = Some ''ws'' \<and> wsSettings server \<noteq> None)"

text \<open>
  The websocket layer the claim describes, for settings \<open>ws\<close>: type \<open>ws\<close>, the
  configured path (\<open>/\<close> when it is missing or empty) and the \<open>Host\<close> header when
  one is given.
\<close>

definition ws_layer :: "ws_settings \<Rightarrow> transport_config" where
  "ws_layer ws =
     \<lparr> transport_type = ''ws'',
       transport_path = Some (or_else (ws_path ws) ''/''),
       transport_headers =
         (case headers ws of
            None \<Rightarrow> None
          | Some h \<Rightarrow> if truthy (Host h) then Some \<lparr> header_Host = the (Host h) \<rparr>
                      else None) \<rparr>"

text \<open>A Shadowsocks profile with a websocket transport configured.\<close>

definition shadowsocks_ws_server :: ServerConfig where
  "shadowsocks_ws_server =
     \<lparr> server_id = ''s1'', server_name = ''ss'', protocol = ''shadowsocks'',
       address = ''example.com'', port = 8388, uuid = None, flow = None,
       network = Some ''ws'',
       wsSettings = Some \<lparr> ws_path = Some ''/ws'',
                           headers = Some \<lparr> Host = Some ''cdn.example.com'' \<rparr> \<rparr>,
       password = None, hysteria2Settings = None,
       shadowsocksSettings = Some \<lparr> ss_method = Some ''aes-256-gcm'',
                                     ss_password = Some ''pw'' \<rparr>,
       security = None, tlsSettings = None, realitySettings = None \<rparr>"

section \<open>Parsed JSON and the release feed\<close>

text \<open>
  The value \<open>JSON.parse\<close> returns. The feed is typed \<open>any\<close> in the source, so every
  shape is possible. A number is kept as an integer: the code only asks whether one is
  zero.
\<close>

datatype json =
    JNull
  | JBool bool
  | JNum int
  | JStr string
  | JArr "json list"
  | JObj "(string \<times> json) list"

text \<open>
  A thrown value: an \<open>Error\<close> with its \<open>message\<close> and, for file-system errors,
  its \<open>code\<close> (\<open>EBUSY\<close>, \<open>EPERM\<close>, \<open>ENOENT\<close>, ...).
\<close>

record js_error =
  err_message :: string
  err_code :: "string option"

definition Error :: "string \<Rightarrow> js_error" where
  "Error m = \<lparr> err_message = m, err_code = None \<rparr>"

definition TypeError :: "string \<Rightarrow> js_error" where
  "TypeError m = Error m"

text \<open>
  Reading a property \<open>v.k\<close> of a parsed value (\<open>None\<close> is \<open>undefined\<close>): \<open>null\<close>
  throws, an object gives the member, arrays and strings have a \<open>length\<close>.
\<close>

fun get_prop :: "json \<Rightarrow> string \<Rightarrow> js_error + json option" where
  "get_prop JNull k = Inl (TypeError (''Cannot read properties of null (reading '' @ k @ '')''))"
| "get_prop (JObj kv) k = Inr (map_of kv k)"
| "get_prop (JArr xs) k = Inr (if k = ''length'' then Some (JNum (int (length xs))) else None)"
| "get_prop (JStr s) k = Inr (if k = ''length'' then Some (JNum (int (length s))) else None)"
| "get_prop (JBool b) k = Inr None"
| "get_prop (JNum n) k = Inr None"

fun js_truthy :: "json option \<Rightarrow> bool" where
  "js_truthy None = False"
| "js_truthy (Some JNull) = False"
| "js_truthy (Some (JBool b)) = b"
| "js_truthy (Some (JNum n)) = (n \<noteq> 0)"
| "js_truthy (Some (JStr s)) = (s \<noteq> [])"
| "js_truthy (Some (JArr xs)) = True"
| "js_truthy (Some (JObj kv)) = True"

text \<open>
  The answer to the request of \<open>fetchReleases\<close>: a request error, or a status code
  with the body as parsed (\<open>None\<close> when the body is not JSON).
\<close>

datatype fetch_response = FetchError js_error | FetchDone nat "json option"

section \<open>CoreUpdateService: the environment\<close>

text \<open>
  What the service does to the outside world, in order: calls of the logger, file-system
  calls, shell commands, timers and the proxy runtime.
\<close>

datatype event =
    Log string string
  | CopyFile path path
  | Chmod path
  | Unlink path
  | Mkdir path
  | Exec string
  | Sleep nat
  | ProxyStop

text \<open>
  The state the service reads and writes: the files (a path holds a content or is
  absent), the single-flight flag of the service instance, and the events so far.
\<close>

record world =
  files :: "path \<Rightarrow> bytes option"
  isUpdating :: bool
  trace :: "event list"

definition emit :: "event \<Rightarrow> world \<Rightarrow> world" where
  "emit e w = w \<lparr> trace := trace w @ [e] \<rparr>"

definition addLog :: "string \<Rightarrow> string \<Rightarrow> world \<Rightarrow> world" where
  "addLog level msg w = emit (Log level msg) w"

text \<open>\<open>await new Promise(resolve => setTimeout(resolve, ms))\<close>.\<close>

definition sleep :: "nat \<Rightarrow> world \<Rightarrow> world" where
  "sleep ms w = emit (Sleep ms) w"

text \<open>
  The outcome of one \<open>fs.copyFileSync\<close>, chosen by the environment. A failed copy
  throws; it may leave the destination as it was (\<open>Untouched\<close>, as for a locked file),
  or truncated, partly written or removed (\<open>LeftAs\<close> with what is there afterwards).
\<close>

datatype damage = Untouched | LeftAs "bytes option"

datatype copy_outcome = CopyOk | CopyFails js_error damage

definition ENOENT :: js_error where
  "ENOENT = \<lparr> err_message = ''ENOENT: no such file or directory'', err_code = Some ''ENOENT'' \<rparr>"

definition copyFileSync ::
  "copy_outcome \<Rightarrow> path \<Rightarrow> path \<Rightarrow> world \<Rightarrow> (js_error + unit) \<times> world" where
  "copyFileSync outcome src dest w =
     (let w1 = emit (CopyFile src dest) w
      in case outcome of
           CopyOk \<Rightarrow>
             (case files w1 src of
                None \<Rightarrow> (Inl ENOENT, w1)
              | Some content \<Rightarrow> (Inr (), w1 \<lparr> files := (files w1)(dest := Some content) \<rparr>))
         | CopyFails err Untouched \<Rightarrow> (Inl err, w1)
         | CopyFails err (LeftAs c) \<Rightarrow> (Inl err, w1 \<lparr> files := (files w1)(dest := c) \<rparr>))"

text \<open>The answer to one \<open>https.get\<close>.\<close>

datatype http_outcome =
    HttpResponse nat "string option" bytes
  | HttpStalled
  | HttpError js_error

text \<open>What \<open>extractCore\<close> meets: its tools are the platform's shell commands.\<close>

datatype extract_outcome =
    MkdirFails js_error
  | CommandFails js_error
  | NoExecutable
  | Found string bytes

record proxy_manager =
  running :: bool
  stopResult :: "js_error option"
  coreVersion :: "js_error + string"

record update_env =
  platform :: string
  arch :: string
  tempDir :: path
  singBoxPath :: path
  dateNow :: nat
  urlPathname :: "string \<Rightarrow> string option"
  httpGet :: "string \<Rightarrow> http_outcome"
  extraction :: extract_outcome
  proxyManager :: "proxy_manager option"
  releasesFeed :: fetch_response
  backupCopy :: copy_outcome
  targetDirExists :: bool
  mkdirResult :: "js_error option"
  installCopy :: "nat \<Rightarrow> copy_outcome"
  taskkillOk :: "nat \<Rightarrow> bool"
  chmodResult :: "js_error option"
  unlinkTempResult :: "js_error option"
  unlinkCoreResult :: "js_error option"
  restoreCopy :: copy_outcome
  restoreChmod :: "js_error option"

section \<open>CoreUpdateService: download\<close>

text \<open>
  Node's \<open>path.extname\<close> (POSIX flavour), from its documentation: the extension of
  the last path component, from its last dot on; empty when there is no dot, when the
  only dot is the component's first character, or when the component is \<open>..\<close>.
  Trailing slashes are ignored.
\<close>

definition last_component :: "string \<Rightarrow> string" where
  "last_component p =
     rev (takeWhile (\<lambda>c. c \<noteq> CHR ''/'') (dropWhile (\<lambda>c. c = CHR ''/'') (rev p)))"

definition extname :: "string \<Rightarrow> string" where
  "extname p =
     (let c = last_component p;
          e = rev (takeWhile (\<lambda>x. x \<noteq> CHR ''.'') (rev c))
      in if CHR ''.'' \<notin> set c then []
         else if length c = Suc (length e) then []
         else if c = ''..'' then []
         else CHR ''.'' # e)"

text \<open>\<open>path.join(dir, name)\<close> for a directory and a file name.\<close>

definition path_join :: "path \<Rightarrow> string \<Rightarrow> path" where
  "path_join dir name = dir @ ''/'' @ name"

text \<open>A number in a template literal: its decimal digits.\<close>

fun show_nat :: "nat \<Rightarrow> string" where
  "show_nat n =
     (if n < 10 then [''0123456789'' ! n]
      else show_nat (n div 10) @ [''0123456789'' ! (n mod 10)])"

declare show_nat.simps [simp del]

text \<open>The extension \<open>downloadFile\<close> gives the temporary file.\<close>

definition download_ext :: "update_env \<Rightarrow> string \<Rightarrow> string" where
  "download_ext env url =
     (let ext = (case urlPathname env url of
                   None \<Rightarrow> ''.zip''
                 | Some pathname \<Rightarrow>
                     (let urlExt = extname pathname
                      in if urlExt \<noteq> [] then urlExt else ''.zip''))
      in if platform env = ''win32'' \<and> ext \<noteq> ''.zip'' then ''.zip'' else ext)"

definition download_tempPath :: "update_env \<Rightarrow> string \<Rightarrow> path" where
  "download_tempPath env url =
     path_join (tempDir env)
       (''sing-box-core-update-'' @ show_nat (dateNow env) @ download_ext env url)"

text \<open>
  \<open>downloadFile\<close> (the clock reading \<open>dateNow\<close> only names the file and is
  taken to be the same on every hop): the write stream creates the temporary file, then the response
  decides. A redirect with a \<open>location\<close> starts over at the new URL; a chain of
  redirects that never ends, or a response whose stream never finishes, does not return
  (\<open>None\<close>).
\<close>

partial_function (option) downloadFile ::
  "update_env \<Rightarrow> string \<Rightarrow> world \<Rightarrow> ((js_error + path) \<times> world) option" where
  "downloadFile env url w =
     (let tempPath = download_tempPath env url;
          w1 = w \<lparr> files := (files w)(tempPath := Some []) \<rparr>
      in case httpGet env url of
           HttpError err \<Rightarrow>
             Some (Inl err, emit (Unlink tempPath) (w1 \<lparr> files := (files w1)(tempPath := None) \<rparr>))
         | HttpStalled \<Rightarrow> None
         | HttpResponse status location content \<Rightarrow>
             if (status = 302 \<or> status = 301) \<and> truthy location
             then downloadFile env (the location) w1
             else if status \<noteq> 200
             then Some (Inl (Error (''Download failed: '' @ show_nat status)), w1)
             else Some (Inr tempPath, w1 \<lparr> files := (files w1)(tempPath := Some content) \<rparr>))"

text \<open>
  An environment for the examples: Linux on x64, every call succeeds, the asset is a
  \<open>.tar.gz\<close> archive answered directly.
\<close>

definition asset_url :: string where
  "asset_url = ''https://example.com/download/v1.8.0/sing-box-1.8.0-linux-amd64.tar.gz''"

definition asset_pathname :: string where
  "asset_pathname = ''/download/v1.8.0/sing-box-1.8.0-linux-amd64.tar.gz''"

definition linux_env :: update_env where
  "linux_env =
     \<lparr> platform = ''linux'', arch = ''x64'', tempDir = ''/tmp'',
       singBoxPath = ''/opt/flowz/sing-box'', dateNow = 1700000000000,
       urlPathname = (\<lambda>u. if u = asset_url then Some asset_pathname else None),
       httpGet = (\<lambda>u. HttpResponse 200 None ''NEW''),
       extraction = Found ''sing-box-1.8.0-linux-amd64/sing-box'' ''NEW'',
       proxyManager = None, releasesFeed = FetchDone 200 (Some (JArr [])),
       backupCopy = CopyOk, targetDirExists = True,
       mkdirResult = None, installCopy = (\<lambda>i. CopyOk), taskkillOk = (\<lambda>i. True),
       chmodResult = None, unlinkTempResult = None, unlinkCoreResult = None,
       restoreCopy = CopyOk,
       restoreChmod = None \<rparr>"

text \<open>The file system before an update: the installed core and nothing else.\<close>

definition installed_world :: world where
  "installed_world =
     \<lparr> files = (\<lambda>p. if p = ''/opt/flowz/sing-box'' then Some ''OLD'' else None),
       isUpdating = False, trace = [] \<rparr>"

section \<open>CoreUpdateService: install, backup and rollback\<close>

text \<open>\<open>String.prototype.includes\<close> and \<open>endsWith\<close>.\<close>

primrec str_includes :: "string \<Rightarrow> string \<Rightarrow> bool" where
  "str_includes [] sub = (sub = [])"
| "str_includes (c # cs) sub = (take (length sub) (c # cs) = sub \<or> str_includes cs sub)"

definition endsWith :: "string \<Rightarrow> string \<Rightarrow> bool" where
  "endsWith s suf = (length suf \<le> length s \<and> drop (length s - length suf) s = suf)"

text \<open>Node's \<open>path.dirname\<close> (POSIX flavour), from its documentation.\<close>

definition dirname :: "path \<Rightarrow> path" where
  "dirname p =
     (let r = dropWhile (\<lambda>c. c \<noteq> CHR ''/'') (dropWhile (\<lambda>c. c = CHR ''/'') (rev p));
          d = dropWhile (\<lambda>c. c = CHR ''/'') r
      in if r = [] then (if take 1 p = ''/'' then ''/'' else ''.'')
         else if d = [] then ''/''
         else rev d)"

text \<open>\<open>fs.chmodSync\<close>, \<open>fs.unlinkSync\<close> and \<open>fs.mkdirSync\<close> with the environment's answer.\<close>

definition chmodSync :: "js_error option \<Rightarrow> path \<Rightarrow> world \<Rightarrow> (js_error + unit) \<times> world" where
  "chmodSync answer p w =
     (case answer of
        None \<Rightarrow> (Inr (), emit (Chmod p) w)
      | Some err \<Rightarrow> (Inl err, emit (Chmod p) w))"

definition unlinkSync :: "js_error option \<Rightarrow> path \<Rightarrow> world \<Rightarrow> (js_error + unit) \<times> world" where
  "unlinkSync answer p w =
     (let w1 = emit (Unlink p) w
      in case answer of
           None \<Rightarrow> (Inr (), w1 \<lparr> files := (files w1)(p := None) \<rparr>)
         | Some err \<Rightarrow> (Inl err, w1))"

definition mkdirSync :: "js_error option \<Rightarrow> path \<Rightarrow> world \<Rightarrow> (js_error + unit) \<times> world" where
  "mkdirSync answer p w =
     (case answer of
        None \<Rightarrow> (Inr (), emit (Mkdir p) w)
      | Some err \<Rightarrow> (Inl err, emit (Mkdir p) w))"

text \<open>
  \<open>copyFileWithRetry\<close>: the \<open>for\<close> loop from attempt \<open>i\<close> on. Attempt \<open>i\<close> meets
  the copy outcome \<open>installCopy env i\<close>, and \<open>taskkillOk env i\<close> tells whether the
  \<open>taskkill\<close> command after it exits normally (\<open>execSync\<close> throws otherwise, for
  instance when no such process exists, and the wait after it is skipped).
\<close>

definition copy_failed_message :: "nat \<Rightarrow> nat \<Rightarrow> js_error \<Rightarrow> string" where
  "copy_failed_message retries i err =
     ''Copy failed (attempt '' @ show_nat (i + 1) @ ''/'' @ show_nat retries @ ''): ''
       @ err_message err"

definition lock_error :: "js_error \<Rightarrow> bool" where
  "lock_error err = (err_code err = Some ''EBUSY'' \<or> err_code err = Some ''EPERM'')"

definition force_kill :: "update_env \<Rightarrow> nat \<Rightarrow> world \<Rightarrow> world" where
  "force_kill env i w =
     (let w1 = addLog ''info'' ''File locked, attempting to force kill sing-box.exe...'' w;
          w2 = emit (Exec ''taskkill /F /IM sing-box.exe'') w1
      in if taskkillOk env i then sleep 1000 w2 else w2)"

function copyFileWithRetry_loop ::
  "update_env \<Rightarrow> path \<Rightarrow> path \<Rightarrow> nat \<Rightarrow> nat \<Rightarrow> world \<Rightarrow> (js_error + unit) \<times> world" where
  "copyFileWithRetry_loop env src dest retries i w =
     (if i < retries then
        (case copyFileSync (installCopy env i) src dest w of
           (Inr u, w1) \<Rightarrow> (Inr (), w1)
         | (Inl err, w1) \<Rightarrow>
             (let w2 = addLog ''warn'' (copy_failed_message retries i err) w1
              in if i = retries - 1 then (Inl err, w2)
                 else
                   (let w3 = (if platform env = ''win32'' \<and> lock_error err
                              then force_kill env i w2 else w2);
                        w4 = sleep 1000 w3
                    in copyFileWithRetry_loop env src dest retries (i + 1) w4)))
      else (Inr (), w))"
  by pat_completeness auto
termination
  by (relation "measure (\<lambda>(env, src, dest, retries, i, w). retries - i)") auto

declare copyFileWithRetry_loop.simps [simp del]

definition copyFileWithRetry ::
  "update_env \<Rightarrow> path \<Rightarrow> path \<Rightarrow> world \<Rightarrow> (js_error + unit) \<times> world" where
  "copyFileWithRetry env src dest w = copyFileWithRetry_loop env src dest 3 0 w"

definition getBackupPath :: "update_env \<Rightarrow> path" where
  "getBackupPath env = singBoxPath env @ ''.bak''"

definition backupCurrentCore :: "update_env \<Rightarrow> world \<Rightarrow> (js_error + unit) \<times> world" where
  "backupCurrentCore env w =
     (let currentPath = singBoxPath env;
          backupPath = getBackupPath env
      in if files w currentPath \<noteq> None then
           (case copyFileSync (backupCopy env) currentPath backupPath w of
              (Inl err, w1) \<Rightarrow> (Inl err, w1)
            | (Inr u, w1) \<Rightarrow> (Inr (), addLog ''info'' ''current core backed up'' w1))
         else (Inr (), w))"

text \<open>\<open>restoreBackup\<close> catches whatever its copy or its \<open>chmod\<close> throws and logs it.\<close>

definition restoreBackup :: "update_env \<Rightarrow> world \<Rightarrow> world" where
  "restoreBackup env w =
     (let currentPath = singBoxPath env;
          backupPath = getBackupPath env
      in if files w backupPath \<noteq> None then
           (case copyFileSync (restoreCopy env) backupPath currentPath w of
              (Inl err, w1) \<Rightarrow> addLog ''error'' ''restoring the backup failed'' w1
            | (Inr u, w1) \<Rightarrow>
                if platform env \<noteq> ''win32'' then
                  (case chmodSync (restoreChmod env) currentPath w1 of
                     (Inl err, w2) \<Rightarrow> addLog ''error'' ''restoring the backup failed'' w2
                   | (Inr u, w2) \<Rightarrow> addLog ''info'' ''core restored from backup'' w2)
                else addLog ''info'' ''core restored from backup'' w1)
         else w)"

text \<open>
  \<open>extractCore\<close>: the directory is made outside the \<open>try\<close>; a failing command and
  a missing executable are rethrown with the prefix of the \<open>catch\<close>. The command is
  recorded without its quoting.
\<close>

definition extract_command :: "update_env \<Rightarrow> path \<Rightarrow> path \<Rightarrow> string" where
  "extract_command env filePath extractDir =
     (if platform env = ''win32''
      then ''powershell -command Expand-Archive -Path '' @ filePath
             @ '' -DestinationPath '' @ extractDir @ '' -Force''
      else if endsWith filePath ''.zip''
      then ''unzip -o '' @ filePath @ '' -d '' @ extractDir
      else ''tar -xzf '' @ filePath @ '' -C '' @ extractDir)"

definition extractCore :: "update_env \<Rightarrow> path \<Rightarrow> world \<Rightarrow> (js_error + path) \<times> world" where
  "extractCore env filePath w =
     (let extractDir = path_join (tempDir env)
                         (''sing-box-extracted-'' @ show_nat (dateNow env));
          w1 = emit (Mkdir extractDir) w;
          w2 = emit (Exec (extract_command env filePath extractDir)) w1
      in case extraction env of
           MkdirFails err \<Rightarrow> (Inl err, w1)
         | CommandFails err \<Rightarrow> (Inl (Error (''unpacking failed: '' @ err_message err)), w2)
         | NoExecutable \<Rightarrow>
             (Inl (Error (''unpacking failed: ''
                            @ ''no sing-box executable found in the archive'')), w2)
         | Found rel content \<Rightarrow>
             (Inr (path_join extractDir rel),
              w2 \<lparr> files := (files w2)(path_join extractDir rel := Some content) \<rparr>))"

text \<open>Step 3 of \<open>updateCore\<close>: stop the proxy when it runs; the result is \<open>wasRunning\<close>.\<close>

definition stopProxy :: "update_env \<Rightarrow> world \<Rightarrow> (js_error + bool) \<times> world" where
  "stopProxy env w =
     (case proxyManager env of
        None \<Rightarrow> (Inr False, w)
      | Some pm \<Rightarrow>
          if running pm then
            (let w1 = emit ProxyStop (addLog ''info'' ''stopping the proxy service...'' w)
             in case stopResult pm of
                  Some err \<Rightarrow> (Inl err, w1)
                | None \<Rightarrow> (Inr True, sleep 2000 w1))
          else (Inr False, w))"

text \<open>Step 6: the clean-up, whose errors are ignored.\<close>

definition cleanup :: "update_env \<Rightarrow> path \<Rightarrow> path \<Rightarrow> world \<Rightarrow> world" where
  "cleanup env tempPath corePath w =
     (case unlinkSync (unlinkTempResult env) tempPath w of
        (Inl err, w1) \<Rightarrow> w1
      | (Inr u, w1) \<Rightarrow>
          if str_includes corePath (tempDir env) \<and> corePath \<noteq> tempPath
          then snd (unlinkSync (unlinkCoreResult env) corePath w1)
          else w1)"

text \<open>Steps 4 to 7, once the archive is downloaded and unpacked and the proxy stopped.\<close>

definition install :: "update_env \<Rightarrow> path \<Rightarrow> path \<Rightarrow> bool \<Rightarrow> world \<Rightarrow> (js_error + bool) \<times> world" where
  "install env tempPath corePath wasRunning w =
     (case backupCurrentCore env w of
        (Inl err, w1) \<Rightarrow> (Inl err, w1)
      | (Inr u, w1) \<Rightarrow>
          (let w2 = addLog ''info'' ''replacing the core file...'' w1;
               targetPath = singBoxPath env
           in case (if targetDirExists env then (Inr (), w2)
                    else mkdirSync (mkdirResult env) (dirname targetPath) w2) of
                (Inl err, w3) \<Rightarrow> (Inl err, w3)
              | (Inr u, w3) \<Rightarrow>
                  (case copyFileWithRetry env corePath targetPath w3 of
                     (Inl err, w4) \<Rightarrow> (Inl err, w4)
                   | (Inr u, w4) \<Rightarrow>
                       (case (if platform env \<noteq> ''win32''
                              then chmodSync (chmodResult env) targetPath w4
                              else (Inr (), w4)) of
                          (Inl err, w5) \<Rightarrow> (Inl err, w5)
                        | (Inr u, w5) \<Rightarrow>
                            (let w6 = addLog ''info'' ''core file replaced'' w5;
                                 w7 = cleanup env tempPath corePath w6;
                                 w8 = (if wasRunning \<and> proxyManager env \<noteq> None
                                       then addLog ''info'' ''restarting the proxy service...'' w7
                                       else w7)
                             in (Inr True, w8))))))"

text \<open>The \<open>try\<close> block of \<open>updateCore\<close>.\<close>

definition updateCore_try ::
  "update_env \<Rightarrow> string \<Rightarrow> world \<Rightarrow> ((js_error + bool) \<times> world) option" where
  "updateCore_try env downloadUrl w =
     (case downloadFile env downloadUrl (addLog ''info'' ''downloading the core file...'' w) of
        None \<Rightarrow> None
      | Some (Inl err, w1) \<Rightarrow> Some (Inl err, w1)
      | Some (Inr tempPath, w1) \<Rightarrow>
          (case extractCore env tempPath (addLog ''info'' ''unpacking the core file...'' w1) of
             (Inl err, w2) \<Rightarrow> Some (Inl err, w2)
           | (Inr corePath, w2) \<Rightarrow>
               (case stopProxy env w2 of
                  (Inl err, w3) \<Rightarrow> Some (Inl err, w3)
                | (Inr wasRunning, w3) \<Rightarrow> Some (install env tempPath corePath wasRunning w3))))"

text \<open>
  \<open>updateCore\<close>: the guard and the flag, the \<open>try\<close> block, the \<open>catch\<close> (log, restore
  the backup, rethrow) and the \<open>finally\<close> (clear the flag). \<open>None\<close>: the download
  never returns.
\<close>

definition busy_error :: js_error where
  "busy_error = Error ''an update is already in progress''"

definition updateCore ::
  "update_env \<Rightarrow> string \<Rightarrow> world \<Rightarrow> ((js_error + bool) \<times> world) option" where
  "updateCore env downloadUrl w =
     (if isUpdating w then Some (Inl busy_error, w)
      else
        (case updateCore_try env downloadUrl (w \<lparr> isUpdating := True \<rparr>) of
           None \<Rightarrow> None
         | Some (Inr r, w1) \<Rightarrow> Some (Inr r, w1 \<lparr> isUpdating := False \<rparr>)
         | Some (Inl err, w1) \<Rightarrow>
             (let w2 = addLog ''error'' (''updating the core failed: '' @ err_message err) w1;
                  w3 = restoreBackup env w2
              in Some (Inl err, w3 \<lparr> isUpdating := False \<rparr>))))"

subsection \<open>The retrying copy, attempt by attempt\<close>

text \<open>
  What the retrying copy is claimed to do around one failed attempt that is not the last:
  the copy, the warning, on Windows with \<open>EBUSY\<close> or \<open>EPERM\<close> the forced termination
  of \<open>sing-box.exe\<close> (followed by a wait of one second when the command succeeded), and
  the fixed backoff of one second.
\<close>

definition copy_failed_log :: "nat \<Rightarrow> nat \<Rightarrow> js_error \<Rightarrow> event" where
  "copy_failed_log retries i err = Log ''warn'' (copy_failed_message retries i err)"

definition kill_events :: "update_env \<Rightarrow> nat \<Rightarrow> js_error \<Rightarrow> event list" where
  "kill_events env i err =
     (if platform env = ''win32'' \<and> lock_error err
      then [Log ''info'' ''File locked, attempting to force kill sing-box.exe...'',
            Exec ''taskkill /F /IM sing-box.exe'']
           @ (if taskkillOk env i then [Sleep 1000] else [])
      else [])"

definition failed_attempt :: "update_env \<Rightarrow> path \<Rightarrow> path \<Rightarrow> nat \<Rightarrow> nat \<Rightarrow> event list" where
  "failed_attempt env src dest retries i =
     (case installCopy env i of
        CopyOk \<Rightarrow> []
      | CopyFails err d \<Rightarrow>
          [CopyFile src dest, copy_failed_log retries i err] @ kill_events env i err
          @ [Sleep 1000])"

text \<open>The events a call adds to the trace.\<close>

definition new_events :: "world \<Rightarrow> world \<Rightarrow> event list" where
  "new_events w w' = drop (length (trace w)) (trace w')"

text \<open>A Windows environment in which the first copy meets a locked file.\<close>

definition EBUSY :: js_error where
  "EBUSY = \<lparr> err_message = ''EBUSY: resource busy or locked'', err_code = Some ''EBUSY'' \<rparr>"

definition locked_env :: update_env where
  "locked_env =
     linux_env \<lparr> platform := ''win32'',
                 installCopy := (\<lambda>i. if i = 0 then CopyFails EBUSY Untouched else CopyOk) \<rparr>"

definition unpacked_world :: world where
  "unpacked_world =
     installed_world \<lparr> files := (files installed_world)(''/tmp/x/sing-box.exe'' := Some ''NEW'') \<rparr>"


subsection \<open>Where an update writes\<close>

text \<open>A path inside the temporary directory.\<close>

definition in_temp :: "update_env \<Rightarrow> path \<Rightarrow> bool" where
  "in_temp env p = (take (Suc (length (tempDir env))) p = tempDir env @ ''/'')"

subsection \<open>Calls of \<open>updateCore\<close> interleaving at its suspension points\<close>




text \<open>
  An environment in which the disk fails: every copy to the install path breaks off and
  leaves a partly written file, and the copy that restores the backup fails as well.
\<close>

definition EIO :: js_error where
  "EIO = \<lparr> err_message = ''EIO: i/o error'', err_code = Some ''EIO'' \<rparr>"

definition broken_disk_env :: update_env where
  "broken_disk_env =
     linux_env \<lparr> installCopy := (\<lambda>i. CopyFails EIO (LeftAs (Some ''NE''))),
                 restoreCopy := CopyFails EIO Untouched \<rparr>"

text \<open>The same failing copies, with a restore that works.\<close>

definition failing_install_env :: update_env where
  "failing_install_env = broken_disk_env \<lparr> restoreCopy := CopyOk \<rparr>"

section \<open>CoreUpdateService: checking for an update\<close>

record CoreUpdateCheckResult =
  hasUpdate :: bool
  currentVersion :: string
  latestVersion :: "string option"
  downloadUrl :: "json option"
  releaseNotes :: "json option"
  error :: "string option"

text \<open>The messages of \<open>checkUpdate\<close> (the source's are Chinese).\<close>

definition unknown_version :: string where
  "unknown_version = ''unknown''"

definition no_release_message :: string where
  "no_release_message = ''no release found''"

definition no_stable_message :: string where
  "no_stable_message = ''no stable release found''"

definition no_asset_message :: "update_env \<Rightarrow> string" where
  "no_asset_message env =
     ''no build found for this platform (Platform: '' @ platform env @ '', Arch: ''
       @ arch env @ '')''"

definition getCurrentVersion :: "update_env \<Rightarrow> js_error + string" where
  "getCurrentVersion env =
     (case proxyManager env of
        Some pm \<Rightarrow> coreVersion pm
      | None \<Rightarrow> Inr unknown_version)"

definition fetchReleases :: "update_env \<Rightarrow> js_error + json" where
  "fetchReleases env =
     (case releasesFeed env of
        FetchError err \<Rightarrow> Inl err
      | FetchDone status parsed \<Rightarrow>
          if status = 200 then
            (case parsed of
               Some v \<Rightarrow> Inr v
             | None \<Rightarrow> Inl (Error ''Failed to parse GitHub response''))
          else Inl (Error (''GitHub API Error: '' @ show_nat status)))"

text \<open>\<open>releases.filter(r => !r.prerelease)\<close>; the callback throws on \<open>null\<close>.\<close>

fun filter_stable :: "json list \<Rightarrow> js_error + json list" where
  "filter_stable [] = Inr []"
| "filter_stable (r # rs) =
     (case get_prop r ''prerelease'' of
        Inl err \<Rightarrow> Inl err
      | Inr p \<Rightarrow>
          (case filter_stable rs of
             Inl err \<Rightarrow> Inl err
           | Inr keep \<Rightarrow> Inr (if js_truthy p then keep else r # keep)))"

text \<open>\<open>tag_name.replace(/^v/, '')\<close>.\<close>

definition strip_v :: "string \<Rightarrow> string" where
  "strip_v s = (case s of c # cs \<Rightarrow> if c = CHR ''v'' then cs else s | [] \<Rightarrow> [])"

text \<open>\<open>findSuitableAsset\<close>: the platform and architecture keywords and the test on one asset.\<close>

definition platform_keyword :: "update_env \<Rightarrow> string \<times> string" where
  "platform_keyword env =
     (if platform env = ''win32'' then (''windows'', ''.zip'')
      else if platform env = ''darwin'' then (''darwin'', ''.tar.gz'')
      else if platform env = ''linux'' then (''linux'', ''.tar.gz'')
      else ([], []))"

definition arch_keyword :: "update_env \<Rightarrow> string" where
  "arch_keyword env =
     (if arch env = ''x64'' then ''amd64''
      else if arch env = ''arm64'' then ''arm64''
      else [])"

definition asset_matches :: "update_env \<Rightarrow> json \<Rightarrow> js_error + bool" where
  "asset_matches env a =
     (case get_prop a ''name'' of
        Inl err \<Rightarrow> Inl err
      | Inr (Some (JStr n)) \<Rightarrow>
          Inr (str_includes (toLowerCase n) (fst (platform_keyword env))
               \<and> str_includes (toLowerCase n) (arch_keyword env)
               \<and> (endsWith n (snd (platform_keyword env)) \<or> endsWith n ''.zip''))
      | Inr other \<Rightarrow> Inl (TypeError ''a.name.toLowerCase is not a function''))"

fun find_asset :: "update_env \<Rightarrow> json list \<Rightarrow> js_error + json option" where
  "find_asset env [] = Inr None"
| "find_asset env (a # rest) =
     (case asset_matches env a of
        Inl err \<Rightarrow> Inl err
      | Inr True \<Rightarrow> Inr (Some a)
      | Inr False \<Rightarrow> find_asset env rest)"

definition findSuitableAsset :: "update_env \<Rightarrow> json option \<Rightarrow> js_error + json option" where
  "findSuitableAsset env assets =
     (case assets of
        Some (JArr xs) \<Rightarrow> find_asset env xs
      | other \<Rightarrow> Inl (TypeError ''assets.find is not a function''))"

definition no_update :: "string \<Rightarrow> string option \<Rightarrow> CoreUpdateCheckResult" where
  "no_update current err =
     \<lparr> hasUpdate = False, currentVersion = current, latestVersion = None,
       downloadUrl = None, releaseNotes = None, error = err \<rparr>"

text \<open>What \<open>checkUpdate\<close> does with the newest stable release.\<close>

definition check_latest :: "update_env \<Rightarrow> string \<Rightarrow> json \<Rightarrow> js_error + CoreUpdateCheckResult" where
  "check_latest env current latestRelease =
     (case get_prop latestRelease ''tag_name'' of
        Inl err \<Rightarrow> Inl err
      | Inr (Some (JStr tag)) \<Rightarrow>
          (let latest = strip_v tag
           in if compareVersions latest current > 0 then
                (case get_prop latestRelease ''assets'' of
                   Inl err \<Rightarrow> Inl err
                 | Inr assets \<Rightarrow>
                     (case findSuitableAsset env assets of
                        Inl err \<Rightarrow> Inl err
                      | Inr None \<Rightarrow> Inr (no_update current (Some (no_asset_message env)))
                      | Inr (Some asset) \<Rightarrow>
                          if js_truthy (Some asset) then
                            (case get_prop asset ''browser_download_url'' of
                               Inl err \<Rightarrow> Inl err
                             | Inr url \<Rightarrow>
                                 (case get_prop latestRelease ''body'' of
                                    Inl err \<Rightarrow> Inl err
                                  | Inr notes \<Rightarrow>
                                      Inr \<lparr> hasUpdate = True, currentVersion = current,
                                            latestVersion = Some latest, downloadUrl = url,
                                            releaseNotes = notes, error = None \<rparr>))
                          else Inr (no_update current (Some (no_asset_message env)))))
              else Inr (no_update current None))
      | Inr other \<Rightarrow> Inl (TypeError ''latestRelease.tag_name.replace is not a function''))"

text \<open>The \<open>try\<close> block of \<open>checkUpdate\<close>.\<close>

definition checkUpdate_try :: "update_env \<Rightarrow> js_error + CoreUpdateCheckResult" where
  "checkUpdate_try env =
     (case getCurrentVersion env of
        Inl err \<Rightarrow> Inl err
      | Inr current \<Rightarrow>
          (case fetchReleases env of
             Inl err \<Rightarrow> Inl err
           | Inr releases \<Rightarrow>
               if \<not> js_truthy (Some releases) \<or> get_prop releases ''length'' = Inr (Some (JNum 0))
               then Inr (no_update current (Some no_release_message))
               else
                 (case releases of
                    JArr rs \<Rightarrow>
                      (case filter_stable rs of
                         Inl err \<Rightarrow> Inl err
                       | Inr [] \<Rightarrow> Inr (no_update current (Some no_stable_message))
                       | Inr (latestRelease # older) \<Rightarrow> check_latest env current latestRelease)
                  | other \<Rightarrow> Inl (TypeError ''releases.filter is not a function''))))"

text \<open>
  \<open>checkUpdate\<close>: the \<open>try\<close> block and its \<open>catch\<close>. The result type keeps a place
  for a thrown error, so that not throwing is a property to prove. The logger is the
  environment's and is taken not to throw.
\<close>

definition checkUpdate :: "update_env \<Rightarrow> js_error + CoreUpdateCheckResult" where
  "checkUpdate env =
     (case checkUpdate_try env of
        Inr r \<Rightarrow> Inr r
      | Inl err \<Rightarrow> Inr (no_update unknown_version (Some (err_message err))))"

text \<open>An entry of the feed that is a prerelease: an object whose \<open>prerelease\<close> is truthy.\<close>

fun prerelease_entry :: "json \<Rightarrow> bool" where
  "prerelease_entry (JObj kv) = js_truthy (map_of kv ''prerelease'')"
| "prerelease_entry other = False"

text \<open>A feed of two prereleases, and a feed whose newest stable release is 1.8.0.\<close>

definition prerelease_feed :: json where
  "prerelease_feed =
     JArr [JObj [(''tag_name'', JStr ''v1.9.0-beta.1''), (''prerelease'', JBool True)],
           JObj [(''tag_name'', JStr ''v1.9.0-alpha.3''), (''prerelease'', JBool True)]]"

definition stable_feed :: json where
  "stable_feed =
     JArr [JObj [(''tag_name'', JStr ''v1.9.0-beta.1''), (''prerelease'', JBool True)],
           JObj [(''tag_name'', JStr ''v1.8.0''), (''prerelease'', JBool False),
                 (''body'', JStr ''notes''),
                 (''assets'',
                  JArr [JObj [(''name'', JStr ''sing-box-1.8.0-darwin-arm64.tar.gz''),
                              (''browser_download_url'', JStr ''https://example.com/darwin'')],
                        JObj [(''name'', JStr ''sing-box-1.8.0-linux-amd64.tar.gz''),
                              (''browser_download_url'', JStr asset_url)]])]]"

definition running_proxy :: proxy_manager where
  "running_proxy = \<lparr> running = True, stopResult = None, coreVersion = Inr ''1.7.0'' \<rparr>"

section \<open>SpeedTestService: probing one server\<close>

record SpeedTestResult =
  serverId :: string
  latency :: "nat option"
  probe_error :: "string option"

text \<open>
  What the child process does after \<open>spawn\<close>, in order, up to the two-second timer:
  output on \<open>stdout\<close> or \<open>stderr\<close>, an \<open>error\<close> event (the message of its error), an
  \<open>exit\<close> with its code (\<open>None\<close> for \<open>null\<close>, when a signal ended it).
\<close>

datatype proc_event =
    Stdout string
  | Stderr string
  | ProcError string
  | Exit "int option"

text \<open>The answers to one \<open>checkPort\<close>, and what happens on the tunnel's socket.\<close>

datatype port_answer = PortOpen | PortClosed js_error

datatype socket_event =
    Data string
  | SocketError js_error
  | Close

text \<open>
  Everything one probe meets. The port checks are numbered; each takes its time, in
  milliseconds. \<open>probeTime\<close> is what \<open>Date.now()\<close> advances by during the HTTP request.
\<close>

record probe_env =
  randomPort :: nat
  procEvents :: "proc_event list"
  portCheck :: "nat \<Rightarrow> port_answer"
  portCheckTime :: "nat \<Rightarrow> nat"
  socksConnect :: "js_error option"
  socketEvents :: "socket_event list"
  probeTime :: nat


text \<open>Messages of the service (the source's are Chinese).\<close>

definition start_failed_message :: "string \<Rightarrow> string" where
  "start_failed_message d = ''sing-box failed to start: '' @ d"

definition cannot_start_message :: "string \<Rightarrow> string" where
  "cannot_start_message m = ''cannot start sing-box: '' @ m"

definition show_code :: "int option \<Rightarrow> string" where
  "show_code c =
     (case c of
        None \<Rightarrow> ''null''
      | Some n \<Rightarrow> if n < 0 then CHR ''-'' # show_nat (nat (- n)) else show_nat (nat n))"

definition exited_message :: "int option \<Rightarrow> string" where
  "exited_message c = ''sing-box exited, code: '' @ show_code c"

definition start_timeout_message :: string where
  "start_timeout_message = ''sing-box start timed out''"

definition port_timeout_message :: "nat \<Rightarrow> string" where
  "port_timeout_message p = ''port '' @ show_nat p @ '' not ready in time''"

definition http_timeout_message :: string where
  "http_timeout_message = ''HTTP request timed out''"

definition closed_message :: string where
  "closed_message = ''connection closed, no response received''"

text \<open>
  \<open>startTempSingbox\<close>: the promise settles at the first event that resolves or rejects
  it; when the events run out before that, the two-second timer kills the process and
  rejects. \<open>True\<close> in the result: the timer killed the process.
\<close>

definition ready_output :: "string \<Rightarrow> bool" where
  "ready_output s = (str_includes s ''started'' \<or> str_includes s ''listening'')"

fun startTempSingbox :: "proc_event list \<Rightarrow> (js_error + unit) \<times> bool" where
  "startTempSingbox [] = (Inl (Error start_timeout_message), True)"
| "startTempSingbox (Stdout s # es) =
     (if ready_output s then (Inr (), False) else startTempSingbox es)"
| "startTempSingbox (Stderr s # es) = (Inl (Error (start_failed_message s)), False)"
| "startTempSingbox (ProcError m # es) = (Inl (Error (cannot_start_message m)), False)"
| "startTempSingbox (Exit c # es) =
     (if c \<noteq> Some 0 then (Inl (Error (exited_message c)), False) else startTempSingbox es)"

text \<open>
  \<open>waitForPort\<close>: \<open>elapsed\<close> is \<open>Date.now() - startTime\<close> at the loop's test. A failed
  check is followed by a wait of 100 ms.
\<close>

function waitForPort_loop :: "probe_env \<Rightarrow> nat \<Rightarrow> nat \<Rightarrow> nat \<Rightarrow> js_error + unit" where
  "waitForPort_loop env timeoutMs elapsed i =
     (if elapsed < timeoutMs then
        (case portCheck env i of
           PortOpen \<Rightarrow> Inr ()
         | PortClosed err \<Rightarrow>
             waitForPort_loop env timeoutMs (elapsed + portCheckTime env i + 100) (i + 1))
      else Inl (Error (port_timeout_message (randomPort env))))"
  by pat_completeness auto
termination
  by (relation "measure (\<lambda>(env, timeoutMs, elapsed, i). timeoutMs - elapsed)") auto

declare waitForPort_loop.simps [simp del]

definition waitForPort :: "probe_env \<Rightarrow> nat \<Rightarrow> js_error + unit" where
  "waitForPort env timeoutMs = waitForPort_loop env timeoutMs 0 0"

text \<open>
  \<open>httpGetViaSocks\<close>, once the tunnel is open: the first data that starts with
  \<open>HTTP/\<close> resolves, an error or a close rejects, and when the events run out the timer
  rejects.
\<close>

definition startsWith :: "string \<Rightarrow> string \<Rightarrow> bool" where
  "startsWith s pre = (take (length pre) s = pre)"

fun await_response :: "socket_event list \<Rightarrow> js_error + unit" where
  "await_response [] = Inl (Error http_timeout_message)"
| "await_response (Data s # es) =
     (if startsWith s ''HTTP/'' then Inr () else await_response es)"
| "await_response (SocketError err # es) = Inl err"
| "await_response (Close # es) = Inl (Error closed_message)"

definition httpGetViaSocks :: "probe_env \<Rightarrow> js_error + unit" where
  "httpGetViaSocks env =
     (case socksConnect env of
        Some err \<Rightarrow> Inl err
      | None \<Rightarrow> await_response (socketEvents env))"

text \<open>The \<open>try\<close> block of \<open>testServer\<close>; with the result, whether a process handle was obtained.\<close>

definition testServer_try ::
  "probe_env \<Rightarrow> ServerConfig \<Rightarrow> (js_error + SpeedTestResult) \<times> bool" where
  "testServer_try env server =
     (let config = generateTempConfig server (randomPort env)
      in case fst (startTempSingbox (procEvents env)) of
           Inl err \<Rightarrow> (Inl err, False)
         | Inr u \<Rightarrow>
             (case waitForPort env 3000 of
                Inl err \<Rightarrow> (Inl err, True)
              | Inr u \<Rightarrow>
                  (case httpGetViaSocks env of
                     Inl err \<Rightarrow> (Inl err, True)
                   | Inr u \<Rightarrow>
                       (Inr \<lparr> serverId = server_id server,
                              latency = Some (probeTime env),
                              probe_error = None \<rparr>, True))))"


section \<open>SpeedTestService: all servers\<close>

text \<open>
  The state of \<open>testAllServers\<close>: the result map, the groups of servers handed to one
  \<open>Promise.all\<close> each, in order, and the ids whose failure was logged.
\<close>

record batch_state =
  results :: "string \<Rightarrow> nat option option"
  groups :: "ServerConfig list list"
  warned :: "string list"





text \<open>\<open>batchResults.forEach\<close>: store the latency, log a failure whose message is truthy.\<close>

fun record_results :: "SpeedTestResult list \<Rightarrow> batch_state \<Rightarrow> batch_state" where
  "record_results [] st = st"
| "record_results (r # rs) st =
     record_results rs
       (st \<lparr> results := (results st)(serverId r := Some (latency r)),
             warned := (if truthy (probe_error r) then warned st @ [serverId r]
                        else warned st) \<rparr>)"





subsection \<open>Notions for the properties of the speed test\<close>

text \<open>The result \<open>testServer\<close>'s \<open>catch\<close> builds for a thrown message.\<close>

definition failed_result :: "ServerConfig \<Rightarrow> string \<Rightarrow> SpeedTestResult" where
  "failed_result server msg =
     \<lparr> serverId = server_id server, latency = None, probe_error = Some msg \<rparr>"

text \<open>The result of one probe, read off the \<open>try\<close> block and the \<open>catch\<close>.\<close>

definition probe_result :: "probe_env \<Rightarrow> ServerConfig \<Rightarrow> SpeedTestResult" where
  "probe_result env server =
     (case fst (testServer_try env server) of
        Inr r \<Rightarrow> r
      | Inl err \<Rightarrow> failed_result server (err_message err))"

text \<open>
  A process event that neither resolves nor rejects the start: output without the
  readiness marker, or an exit with code 0. Data on the socket that is no HTTP status line.
\<close>

fun undecided_event :: "proc_event \<Rightarrow> bool" where
  "undecided_event (Stdout s) = (\<not> ready_output s)"
| "undecided_event (Exit c) = (c = Some 0)"
| "undecided_event (Stderr s) = False"
| "undecided_event (ProcError m) = False"

fun ignored_data :: "socket_event \<Rightarrow> bool" where
  "ignored_data (Data s) = (\<not> startsWith s ''HTTP/'')"
| "ignored_data (SocketError err) = False"
| "ignored_data Close = False"

definition start_ok :: "probe_env \<Rightarrow> bool" where
  "start_ok env = (fst (startTempSingbox (procEvents env)) = Inr ())"

definition port_ok :: "probe_env \<Rightarrow> bool" where
  "port_ok env = (waitForPort env 3000 = Inr ())"




definition example_server :: "string \<Rightarrow> ServerConfig" where
  "example_server i = shadowsocks_ws_server \<lparr> server_id := i \<rparr>"








section \<open>The IPC speed-test handler\<close>

text \<open>
  How the direct TCP connection to one server ends: \<open>connect\<close> after some milliseconds,
  the five-second \<open>timeout\<close>, or an \<open>error\<close>. One of the three always comes first.
\<close>

datatype tcp_outcome = Connected nat | TimedOut | ConnectionError js_error

text \<open>
  The handler's environment: the loaded configuration (or the error \<open>loadConfig\<close>
  throws), the outcome for the server at each position, and the order in which the
  connections, all started at once, come to their end.
\<close>

record ipc_env =
  loadConfig :: "js_error + ServerConfig list"
  tcp :: "nat \<Rightarrow> tcp_outcome"
  completion :: "nat list"

text \<open>What the \<open>try\<close>/\<open>catch\<close> around one connection stores: the elapsed time, or \<open>-1\<close>.\<close>

definition tcp_value :: "tcp_outcome \<Rightarrow> int" where
  "tcp_value outcome =
     (case outcome of
        Connected ms \<Rightarrow> int ms
      | TimedOut \<Rightarrow> - 1
      | ConnectionError err \<Rightarrow> - 1)"

text \<open>
  The handler: one \<open>Promise.all\<close> over all servers; each connection writes
  \<open>results[server.id]\<close> when it ends. With the record, the groups handed to
  \<open>Promise.all\<close>.
\<close>

definition speed_test_handler ::
  "ipc_env \<Rightarrow> js_error + (string \<Rightarrow> int option) \<times> ServerConfig list list" where
  "speed_test_handler env =
     (case loadConfig env of
        Inl err \<Rightarrow> Inl err
      | Inr servers \<Rightarrow>
          Inr (fold (\<lambda>k res. res(server_id (servers ! k) := Some (tcp_value (tcp env k))))
                    (completion env) (\<lambda>k. None),
               [servers]))"

text \<open>Three servers: one answers after 42 ms, one times out, one refuses.\<close>

definition three_servers_env :: ipc_env where
  "three_servers_env =
     \<lparr> loadConfig = Inr (map example_server [''a'', ''b'', ''c'']),
       tcp = (\<lambda>k. if k = 0 then Connected 42
                  else if k = 1 then TimedOut
                  else ConnectionError (Error ''connect ECONNREFUSED'')),
       completion = [2, 0, 1] \<rparr>"

chapter \<open>Properties\<close>

section \<open>CoreUpdateService: the version comparator\<close>

subsection \<open>The loop is the comparison of the padded lists\<close>

lemma or_zero_at_index:
  "length p \<le> n \<Longrightarrow> i < n \<Longrightarrow> or_zero (at_index p i) = pad_zero n (vals p) ! i"
  by (simp add: at_index_def pad_zero_def vals_def nth_append)

lemma loop_first_difference:
  "n = max (length p1) (length p2) \<Longrightarrow>
   compareVersions_loop p1 p2 i =
     first_difference (drop i (zip (pad_zero n (vals p1)) (pad_zero n (vals p2))))"
proof (induction p1 p2 i rule: compareVersions_loop.induct)
  case (1 p1 p2 i)
  let ?xs = "pad_zero n (vals p1)" and ?ys = "pad_zero n (vals p2)"
  have len: "length ?xs = n" "length ?ys = n"
    using "1.prems" by (simp_all add: pad_zero_def vals_def)
  show ?case
  proof (cases "i < n")
    case False
    have "drop i (zip ?xs ?ys) = []"
      using False len by simp
    moreover have "\<not> i < max (length p1) (length p2)"
      using False "1.prems" by simp
    ultimately show ?thesis
      by (simp add: compareVersions_loop.simps [of p1 p2 i])
  next
    case True
    have lt: "i < max (length p1) (length p2)"
      using True "1.prems" by simp
    have n1: "or_zero (at_index p1 i) = ?xs ! i" and n2: "or_zero (at_index p2 i) = ?ys ! i"
      using True "1.prems" by (simp_all add: or_zero_at_index)
    have dr: "drop i (zip ?xs ?ys) = (?xs ! i, ?ys ! i) # drop (Suc i) (zip ?xs ?ys)"
      using True len by (simp add: Cons_nth_drop_Suc [symmetric])
    show ?thesis
    proof (cases "?xs ! i = ?ys ! i")
      case False
      then show ?thesis
        using lt n1 n2 dr
        by (simp add: compareVersions_loop.simps [of p1 p2 i] Let_def)
    next
      case eq: True
      have "compareVersions_loop p1 p2 (i + 1) =
            first_difference (drop (i + 1) (zip ?xs ?ys))"
        using "1.IH" [OF lt refl refl _ _ "1.prems"] n1 n2 eq by simp
      then show ?thesis
        using lt n1 n2 dr eq
        by (simp add: compareVersions_loop.simps [of p1 p2 i] Let_def)
    qed
  qed
qed

lemma loop_spec_compare:
  "compareVersions_loop p1 p2 0 = spec_compare (vals p1) (vals p2)"
  using loop_first_difference [of "max (length p1) (length p2)" p1 p2 0]
  by (simp add: spec_compare_def vals_def Let_def)

lemma first_difference_zip_commute:
  "first_difference (zip ys xs) = - first_difference (zip xs ys)"
proof (induction xs arbitrary: ys)
  case Nil
  then show ?case by simp
next
  case (Cons x xs)
  then show ?case by (cases ys) auto
qed

lemma first_difference_same: "first_difference (zip xs xs) = 0"
  by (induction xs) auto

lemma spec_compare_commute: "spec_compare ys xs = - spec_compare xs ys"
  using first_difference_zip_commute
    [of "pad_zero (max (length xs) (length ys)) ys" "pad_zero (max (length xs) (length ys)) xs"]
  by (simp add: spec_compare_def Let_def max.commute [of "length ys" "length xs"])

lemma spec_compare_same: "spec_compare xs xs = 0"
  by (simp add: spec_compare_def first_difference_same)

lemma first_difference_trans:
  "length xs = length ys \<Longrightarrow> length ys = length zs \<Longrightarrow>
   first_difference (zip xs ys) \<le> 0 \<Longrightarrow> first_difference (zip ys zs) \<le> 0 \<Longrightarrow>
   first_difference (zip xs zs) \<le> 0"
proof (induction xs ys zs rule: list_induct3)
  case Nil
  then show ?case by simp
next
  case (Cons x xs y ys z zs)
  then show ?case
    by (auto split: if_splits)
qed

lemma first_difference_append_same:
  "length xs = length ys \<Longrightarrow>
   first_difference (zip (xs @ replicate k v) (ys @ replicate k v)) = first_difference (zip xs ys)"
proof (induction xs ys rule: list_induct2)
  case Nil
  show ?case by (induction k) auto
next
  case (Cons x xs y ys)
  then show ?case by simp
qed

lemma spec_compare_pad:
  assumes "length xs \<le> m" "length ys \<le> m"
  shows "spec_compare xs ys = first_difference (zip (pad_zero m xs) (pad_zero m ys))"
proof -
  let ?n = "max (length xs) (length ys)"
  have n: "?n \<le> m" using assms by simp
  have px: "pad_zero m xs = pad_zero ?n xs @ replicate (m - ?n) 0"
    using n by (auto simp add: pad_zero_def replicate_add [symmetric] simp del: replicate_add)
  have py: "pad_zero m ys = pad_zero ?n ys @ replicate (m - ?n) 0"
    using n by (auto simp add: pad_zero_def replicate_add [symmetric] simp del: replicate_add)
  have "length (pad_zero ?n xs) = length (pad_zero ?n ys)"
    by (simp add: pad_zero_def)
  then show ?thesis
    unfolding px py spec_compare_def Let_def
    by (simp only: first_difference_append_same)
qed

lemma spec_compare_trans:
  assumes "spec_compare xs ys \<le> 0" "spec_compare ys zs \<le> 0"
  shows "spec_compare xs zs \<le> 0"
proof -
  define m where "m = max (length xs) (max (length ys) (length zs))"
  have l: "length xs \<le> m" "length ys \<le> m" "length zs \<le> m"
    by (simp_all add: m_def)
  have len: "length (pad_zero m xs) = length (pad_zero m ys)"
            "length (pad_zero m ys) = length (pad_zero m zs)"
    using l by (simp_all add: pad_zero_def)
  show ?thesis
    using assms first_difference_trans [OF len]
    by (simp add: spec_compare_pad [OF l(1) l(2)] spec_compare_pad [OF l(2) l(3)]
        spec_compare_pad [OF l(1) l(3)])
qed

subsection \<open>Order properties of the comparator\<close>

lemma vals_Number:
  "list_all (\<lambda>c. c \<noteq> [] \<and> list_all is_digit c) cs \<Longrightarrow>
   vals (map Number cs) = map to_double (map dec_value cs)"
  by (induction cs) (simp_all add: vals_def Number_def)

lemma compareVersions_doubles:
  assumes "dotted_numeric a" "dotted_numeric b"
  shows "compareVersions a b =
         spec_compare (map to_double (components a)) (map to_double (components b))"
  using assms
  by (simp add: compareVersions_def loop_spec_compare dotted_numeric_def components_def
      vals_Number)

lemma first_difference_map_enat:
  "first_difference (zip (map enat xs) (map enat ys)) = first_difference (zip xs ys)"
proof (induction xs arbitrary: ys)
  case Nil
  then show ?case by simp
next
  case (Cons x xs)
  then show ?case by (cases ys) auto
qed

lemma pad_zero_map_enat: "pad_zero n (map enat xs) = map enat (pad_zero n xs)"
  by (simp add: pad_zero_def enat_0)

lemma spec_compare_map_enat: "spec_compare (map enat xs) (map enat ys) = spec_compare xs ys"
  by (simp add: spec_compare_def Let_def pad_zero_map_enat first_difference_map_enat)

lemma to_double_safe:
  "list_all (\<lambda>n. n < 2 ^ 53) ns \<Longrightarrow> map to_double ns = map enat ns"
  by (induction ns) (simp_all add: to_double_def)

lemma compareVersions_integers:
  assumes "dotted_numeric a" "dotted_numeric b" "safe_components a" "safe_components b"
  shows "compareVersions a b = spec_compare (components a) (components b)"
  using assms
  by (simp add: compareVersions_doubles safe_components_def to_double_safe spec_compare_map_enat)

lemma compareVersions_any_commute: "compareVersions a b = - compareVersions b a"
  by (simp add: compareVersions_def loop_spec_compare spec_compare_commute [of _ "vals (map Number (split_char CHR ''.'' b))"])

lemma compareVersions_any_same: "compareVersions a a = 0"
  by (simp add: compareVersions_def loop_spec_compare spec_compare_same)

lemma compareVersions_any_trans:
  "compareVersions a b \<le> 0 \<Longrightarrow> compareVersions b c \<le> 0 \<Longrightarrow> compareVersions a c \<le> 0"
  unfolding compareVersions_def loop_spec_compare by (rule spec_compare_trans)

lemmas compareVersions_eval =
  compareVersions_def compareVersions_loop.simps Number_def is_digit_def dec_value_def
  digit_val_def to_double_def at_index_def Let_def enat_0

lemma compareVersions_short_long: "compareVersions ''1.8'' ''1.8.0'' = 0"
  by (simp add: compareVersions_eval)

lemma compareVersions_numeric_not_textual: "compareVersions ''1.9.0'' ''1.10.0'' < 0"
  by (simp add: compareVersions_eval)

text \<open>
  C3 (as amended). On dotted-numeric version strings the comparator is antisymmetric
  (\<open>compare(a,b) = -compare(b,a)\<close>), reflexive (\<open>compare(a,a) = 0\<close>) and transitive.
  It compares the components pairwise, left to right, missing trailing components
  counting as zero, each component read as the double nearest to its integer; when every
  component is below \<open>2 ^ 53\<close> this is the comparison of the integers themselves.
  \<open>compare("1.8","1.8.0") = 0\<close> and \<open>compare("1.9.0","1.10.0") < 0\<close>.
\<close>

theorem compareVersions_order:
  "dotted_numeric a \<and> dotted_numeric b \<and> dotted_numeric c \<longrightarrow>
     compareVersions a b = - compareVersions b a
   \<and> compareVersions a a = 0
   \<and> (compareVersions a b \<le> 0 \<and> compareVersions b c \<le> 0 \<longrightarrow> compareVersions a c \<le> 0)
   \<and> compareVersions a b =
       spec_compare (map to_double (components a)) (map to_double (components b))
   \<and> (safe_components a \<and> safe_components b \<longrightarrow>
        compareVersions a b = spec_compare (components a) (components b))
   \<and> compareVersions ''1.8'' ''1.8.0'' = 0
   \<and> compareVersions ''1.9.0'' ''1.10.0'' < 0"
  using compareVersions_any_commute [of a b] compareVersions_any_same [of a]
    compareVersions_any_trans [of a b c] compareVersions_doubles [of a b]
    compareVersions_integers [of a b] compareVersions_short_long
    compareVersions_numeric_not_textual
  by blast

lemmas spec_compare_eval = dotted_numeric_def safe_components_def components_def spec_compare_def pad_zero_def

text \<open>Witness for C3: the theorem at \<open>1.9.0\<close>, \<open>1.10.0\<close> and \<open>2.0\<close>.\<close>

theorem compareVersions_order_witness:
  "dotted_numeric ''1.9.0'' \<and> dotted_numeric ''1.10.0'' \<and> dotted_numeric ''2.0''
   \<and> safe_components ''1.9.0'' \<and> safe_components ''1.10.0''
   \<and> compareVersions ''1.9.0'' ''1.10.0'' = - 1
   \<and> compareVersions ''1.10.0'' ''1.9.0'' = 1
   \<and> compareVersions ''1.10.0'' ''2.0'' = - 1
   \<and> compareVersions ''1.9.0'' ''2.0'' \<le> 0
   \<and> spec_compare (components ''1.9.0'') (components ''1.10.0'') = - 1"
proof -
  have d: "dotted_numeric ''1.9.0'' \<and> dotted_numeric ''1.10.0'' \<and> dotted_numeric ''2.0''"
    by (simp add: dotted_numeric_def is_digit_def)
  have s: "safe_components ''1.9.0'' \<and> safe_components ''1.10.0''"
    by (simp add: safe_components_def components_def dec_value_def digit_val_def)
  have c1: "compareVersions ''1.9.0'' ''1.10.0'' = - 1"
    by (simp add: compareVersions_eval)
  have c2: "compareVersions ''1.10.0'' ''2.0'' = - 1"
    by (simp add: compareVersions_eval)
  from compareVersions_order [of "''1.9.0''" "''1.10.0''" "''2.0''"] d s c1 c2
  show ?thesis by simp
qed

text \<open>
  Counterexample to C3 as stated: \<open>9007199254740993\<close> (\<open>2 ^ 53 + 1\<close>) and
  \<open>9007199254740992\<close> differ as integers, but \<open>Number\<close> rounds both to the same
  double, so the comparator returns \<open>0\<close> where the integer comparison gives \<open>1\<close>.
\<close>

theorem compareVersions_integers_counterexample:
  "dotted_numeric ''9007199254740993'' \<and> dotted_numeric ''9007199254740992''
   \<and> compareVersions ''9007199254740993'' ''9007199254740992'' = 0
   \<and> spec_compare (components ''9007199254740993'') (components ''9007199254740992'') = 1"
  by (simp add: compareVersions_eval spec_compare_eval)

section \<open>SpeedTestService: websocket transport per protocol\<close>

lemmas generateTempConfig_eval =
  generateTempConfig_def protocol_outbound_def ws_transport_def tls_block_def
  toLowerCase_def to_lower_char_def or_else_def truthy_def Let_def

lemma transport_vless:
  assumes "toLowerCase (protocol server) = ''vless''"
  shows "map transport (outbounds (generateTempConfig server p)) = [ws_transport server]"
  using assms by (simp add: generateTempConfig_def protocol_outbound_def Let_def)

lemma transport_trojan:
  assumes "toLowerCase (protocol server) = ''trojan''"
  shows "map transport (outbounds (generateTempConfig server p)) = [ws_transport server]"
  using assms by (simp add: generateTempConfig_def protocol_outbound_def Let_def)

lemma transport_hysteria2:
  assumes "toLowerCase (protocol server) = ''hysteria2''"
  shows "map transport (outbounds (generateTempConfig server p)) = [None]"
  using assms
  by (simp add: generateTempConfig_def protocol_outbound_def Let_def split: option.splits)

lemma transport_shadowsocks:
  assumes "toLowerCase (protocol server) = ''shadowsocks''"
  shows "map transport (outbounds (generateTempConfig server p)) = [None]"
  using assms by (simp add: generateTempConfig_def protocol_outbound_def Let_def)

lemma ws_transport_configured:
  assumes "network server = Some ''ws''" "wsSettings server = Some ws"
  shows "ws_transport server = Some (ws_layer ws)"
  using assms
  by (simp add: ws_transport_def ws_layer_def truthy_def Let_def split: option.splits)

text \<open>
  C8 (as amended). For a server profile with a websocket transport configured
  (\<open>network\<close> is \<open>ws\<close> and \<open>wsSettings\<close> is present), the synthesized outbound of
  a \<open>vless\<close> or \<open>trojan\<close> profile has the websocket transport layer with the
  configured path (\<open>/\<close> by default) and, when present, the \<open>Host\<close> header;
  the outbound of a \<open>hysteria2\<close> or \<open>shadowsocks\<close> profile has no transport layer.
\<close>

theorem generateTempConfig_websocket:
  "ws_configured server \<longrightarrow>
     (toLowerCase (protocol server) = ''vless'' \<or> toLowerCase (protocol server) = ''trojan'' \<longrightarrow>
        map transport (outbounds (generateTempConfig server p))
          = [Some (ws_layer (the (wsSettings server)))])
   \<and> (toLowerCase (protocol server) = ''hysteria2''
        \<or> toLowerCase (protocol server) = ''shadowsocks'' \<longrightarrow>
        map transport (outbounds (generateTempConfig server p)) = [None])"
  using transport_vless [of server p] transport_trojan [of server p]
    transport_hysteria2 [of server p] transport_shadowsocks [of server p]
    ws_transport_configured [of server]
  by (auto simp add: ws_configured_def)

text \<open>Witness for C8: a Trojan profile (written \<open>Trojan\<close>) with websocket settings.\<close>

theorem generateTempConfig_websocket_witness:
  "ws_configured (shadowsocks_ws_server \<lparr> protocol := ''Trojan'' \<rparr>)
   \<and> toLowerCase (protocol (shadowsocks_ws_server \<lparr> protocol := ''Trojan'' \<rparr>)) = ''trojan''
   \<and> map transport (outbounds
         (generateTempConfig (shadowsocks_ws_server \<lparr> protocol := ''Trojan'' \<rparr>) 60001))
       = [Some \<lparr> transport_type = ''ws'', transport_path = Some ''/ws'',
                 transport_headers = Some \<lparr> header_Host = ''cdn.example.com'' \<rparr> \<rparr>]"
proof -
  let ?s = "shadowsocks_ws_server \<lparr> protocol := ''Trojan'' \<rparr>"
  have c: "ws_configured ?s"
    by (simp add: ws_configured_def shadowsocks_ws_server_def)
  have p: "toLowerCase (protocol ?s) = ''trojan''"
    by (simp add: toLowerCase_def to_lower_char_def)
  have w: "ws_layer (the (wsSettings ?s)) =
           \<lparr> transport_type = ''ws'', transport_path = Some ''/ws'',
             transport_headers = Some \<lparr> header_Host = ''cdn.example.com'' \<rparr> \<rparr>"
    by (simp add: shadowsocks_ws_server_def ws_layer_def or_else_def truthy_def)
  from generateTempConfig_websocket [of ?s 60001] c p w
  show ?thesis by simp
qed

text \<open>
  Counterexample to C8 as stated: a Shadowsocks profile with \<open>network = ws\<close> and
  websocket settings is synthesized without any transport layer.
\<close>

theorem generateTempConfig_shadowsocks_counterexample:
  "ws_configured shadowsocks_ws_server
   \<and> toLowerCase (protocol shadowsocks_ws_server) = ''shadowsocks''
   \<and> map transport (outbounds (generateTempConfig shadowsocks_ws_server 60001)) = [None]"
  by (simp add: ws_configured_def shadowsocks_ws_server_def generateTempConfig_eval)

section \<open>CoreUpdateService: the extension of the downloaded file\<close>

lemma extname_shape:
  "extname p = [] \<or> (\<exists>e. extname p = CHR ''.'' # e \<and> CHR ''.'' \<notin> set e \<and> CHR ''/'' \<notin> set e)"
proof -
  let ?c = "last_component p"
  let ?e = "rev (takeWhile (\<lambda>x. x \<noteq> CHR ''.'') (rev ?c))"
  have "CHR ''/'' \<notin> set ?c"
    unfolding last_component_def set_rev using set_takeWhileD by fastforce
  moreover have "set ?e \<subseteq> set ?c"
    using set_takeWhileD [of _ "\<lambda>x. x \<noteq> CHR ''.''" "rev ?c"] by auto
  moreover have "CHR ''.'' \<notin> set ?e"
    using set_takeWhileD [of "CHR ''.''" "\<lambda>x. x \<noteq> CHR ''.''" "rev ?c"] by auto
  ultimately show ?thesis
    by (auto simp add: extname_def Let_def)
qed

lemma takeWhile_until: "c \<notin> set xs \<Longrightarrow> takeWhile (\<lambda>x. x \<noteq> c) (xs @ c # ys) = xs"
  by (induction xs) auto

lemma last_component_join:
  assumes "name \<noteq> []" "CHR ''/'' \<notin> set name"
  shows "last_component (path_join dir name) = name"
proof -
  have r: "rev (path_join dir name) = rev name @ CHR ''/'' # rev dir"
    by (simp add: path_join_def)
  have "rev name \<noteq> []" "hd (rev name) \<noteq> CHR ''/''"
    using assms by (simp, metis hd_rev last_in_set)
  then have d: "dropWhile (\<lambda>c. c = CHR ''/'') (rev name @ CHR ''/'' # rev dir)
                = rev name @ CHR ''/'' # rev dir"
    by (cases "rev name") simp_all
  have "takeWhile (\<lambda>c. c \<noteq> CHR ''/'') (rev name @ CHR ''/'' # rev dir) = rev name"
    using assms by (simp add: takeWhile_until)
  then show ?thesis
    by (simp add: last_component_def r d)
qed


lemma extname_join:
  assumes "base \<noteq> []" "CHR ''/'' \<notin> set base" "CHR ''.'' \<notin> set base"
    and "CHR ''.'' \<notin> set e" "CHR ''/'' \<notin> set e"
  shows "extname (path_join dir (base @ CHR ''.'' # e)) = CHR ''.'' # e"
proof -
  let ?c = "base @ CHR ''.'' # e"
  have c: "last_component (path_join dir ?c) = ?c"
    using assms by (intro last_component_join) auto
  have t: "takeWhile (\<lambda>x. x \<noteq> CHR ''.'') (rev ?c) = rev e"
    using assms by (simp add: takeWhile_until)
  have "?c \<noteq> ''..''"
    using assms by (cases base) auto
  then show ?thesis
    using assms by (simp add: extname_def c t Let_def del: rev_append rev.simps)
qed

lemma show_nat_digits: "set (show_nat n) \<subseteq> set ''0123456789''"
proof (induction n rule: show_nat.induct)
  case (1 n)
  have "n mod 10 < 10" by simp
  then have m: "''0123456789'' ! (n mod 10) \<in> set ''0123456789''"
    by (intro nth_mem) simp
  show ?case
  proof (cases "n < 10")
    case True
    then have "''0123456789'' ! n \<in> set ''0123456789''"
      by (intro nth_mem) simp
    then show ?thesis using True by (subst show_nat.simps) simp
  next
    case False
    then show ?thesis using 1 m by (subst show_nat.simps) simp
  qed
qed

lemma show_nat_nonempty: "show_nat n \<noteq> []"
  by (subst show_nat.simps) simp

lemma download_ext_shape:
  "\<exists>e. download_ext env url = CHR ''.'' # e \<and> CHR ''.'' \<notin> set e \<and> CHR ''/'' \<notin> set e"
  using extname_shape [of "the (urlPathname env url)"]
  by (auto simp add: download_ext_def Let_def split: option.splits)

lemma extname_download_tempPath:
  "extname (download_tempPath env url) = download_ext env url"
proof -
  obtain e where e: "download_ext env url = CHR ''.'' # e" "CHR ''.'' \<notin> set e"
      "CHR ''/'' \<notin> set e"
    using download_ext_shape by blast
  let ?base = "''sing-box-core-update-'' @ show_nat (dateNow env)"
  have "CHR ''/'' \<notin> set ?base" "CHR ''.'' \<notin> set ?base"
    using show_nat_digits [of "dateNow env"] by auto
  moreover have "?base \<noteq> []" by simp
  ultimately have "extname (path_join (tempDir env) (?base @ CHR ''.'' # e)) = CHR ''.'' # e"
    using e by (intro extname_join) 
  then show ?thesis
    by (simp add: download_tempPath_def e)
qed

lemma downloadFile_direct:
  assumes "httpGet env url = HttpResponse 200 location content"
  shows "downloadFile env url w =
         Some (Inr (download_tempPath env url),
               w \<lparr> files := (files w)(download_tempPath env url := Some content) \<rparr>)"
  using assms by (subst downloadFile.simps) (simp add: Let_def)


text \<open>
  C9 (as amended). When the request for the URL is answered directly with status 200,
  \<open>downloadFile\<close> returns a temporary file holding the content, and the extension
  of that file is: on a platform other than Windows, the extension of the URL's path when
  it has one; \<open>.zip\<close> when the URL does not parse or its path has no extension, and
  always \<open>.zip\<close> on Windows.
\<close>

theorem downloadFile_extension:
  "httpGet env url = HttpResponse 200 location content \<longrightarrow>
     (\<exists>w'. downloadFile env url w = Some (Inr (download_tempPath env url), w')
           \<and> files w' (download_tempPath env url) = Some content)
   \<and> extname (download_tempPath env url) = download_ext env url
   \<and> (platform env \<noteq> ''win32'' \<and> urlPathname env url = Some pathname
        \<and> extname pathname \<noteq> [] \<longrightarrow> download_ext env url = extname pathname)
   \<and> (platform env = ''win32'' \<or> urlPathname env url = None
        \<or> (urlPathname env url = Some pathname \<and> extname pathname = [])
        \<longrightarrow> download_ext env url = ''.zip'')"
proof (intro impI conjI)
  assume "httpGet env url = HttpResponse 200 location content"
  then show "\<exists>w'. downloadFile env url w = Some (Inr (download_tempPath env url), w')
           \<and> files w' (download_tempPath env url) = Some content"
    by (simp add: downloadFile_direct)
next
  show "extname (download_tempPath env url) = download_ext env url"
    by (rule extname_download_tempPath)
next
  assume "platform env \<noteq> ''win32'' \<and> urlPathname env url = Some pathname
        \<and> extname pathname \<noteq> []"
  then show "download_ext env url = extname pathname"
    by (simp add: download_ext_def)
next
  assume "platform env = ''win32'' \<or> urlPathname env url = None
        \<or> (urlPathname env url = Some pathname \<and> extname pathname = [])"
  then show "download_ext env url = ''.zip''"
    by (auto simp add: download_ext_def Let_def split: option.splits)
qed

lemma extname_asset_pathname: "extname asset_pathname = ''.gz''"
  by (simp add: extname_def last_component_def asset_pathname_def)

text \<open>Witness for C9: a \<open>.tar.gz\<close> asset on Linux is stored as \<open>.gz\<close>.\<close>

theorem downloadFile_extension_witness:
  "httpGet linux_env asset_url = HttpResponse 200 None ''NEW''
   \<and> platform linux_env \<noteq> ''win32''
   \<and> urlPathname linux_env asset_url = Some asset_pathname
   \<and> extname asset_pathname = ''.gz''
   \<and> downloadFile linux_env asset_url installed_world
       = Some (Inr ''/tmp/sing-box-core-update-1700000000000.gz'',
               installed_world \<lparr> files := (files installed_world)
                 (''/tmp/sing-box-core-update-1700000000000.gz'' := Some ''NEW'') \<rparr>)
   \<and> extname ''/tmp/sing-box-core-update-1700000000000.gz'' = ''.gz''"
proof -
  have h: "httpGet linux_env asset_url = HttpResponse 200 None ''NEW''"
    by (simp add: linux_env_def)
  have p: "platform linux_env \<noteq> ''win32''"
          "urlPathname linux_env asset_url = Some asset_pathname"
    by (simp_all add: linux_env_def)
  have x: "extname asset_pathname = ''.gz''"
    by (rule extname_asset_pathname)
  have e: "download_ext linux_env asset_url = ''.gz''"
    using p x by (simp add: download_ext_def)
  have d: "tempDir linux_env = ''/tmp''" "dateNow linux_env = 1700000000000"
    by (simp_all add: linux_env_def)
  have t: "download_tempPath linux_env asset_url = ''/tmp/sing-box-core-update-1700000000000.gz''"
    by (simp add: download_tempPath_def e d path_join_def show_nat.simps)
  from downloadFile_extension [of linux_env asset_url None "''NEW''" installed_world asset_pathname]
    h p x t downloadFile_direct [OF h, of installed_world]
  show ?thesis by simp
qed

text \<open>
  Counterexample to C9 as stated: on Windows the same \<open>.tar.gz\<close> asset is stored in
  a file with extension \<open>.zip\<close>.
\<close>

theorem downloadFile_windows_counterexample:
  "platform (linux_env \<lparr> platform := ''win32'' \<rparr>) = ''win32''
   \<and> urlPathname (linux_env \<lparr> platform := ''win32'' \<rparr>) asset_url = Some asset_pathname
   \<and> extname asset_pathname = ''.gz''
   \<and> downloadFile (linux_env \<lparr> platform := ''win32'' \<rparr>) asset_url installed_world
       = Some (Inr ''/tmp/sing-box-core-update-1700000000000.zip'',
               installed_world \<lparr> files := (files installed_world)
                 (''/tmp/sing-box-core-update-1700000000000.zip'' := Some ''NEW'') \<rparr>)
   \<and> extname ''/tmp/sing-box-core-update-1700000000000.zip'' = ''.zip''"
proof -
  let ?env = "linux_env \<lparr> platform := ''win32'' \<rparr>"
  have h: "httpGet ?env asset_url = HttpResponse 200 None ''NEW''"
    by (simp add: linux_env_def)
  have p: "urlPathname ?env asset_url = Some asset_pathname"
    by (simp add: linux_env_def)
  have e: "download_ext ?env asset_url = ''.zip''"
    using p extname_asset_pathname by (simp add: download_ext_def)
  have d: "tempDir ?env = ''/tmp''" "dateNow ?env = 1700000000000"
    by (simp_all add: linux_env_def)
  have t: "download_tempPath ?env asset_url = ''/tmp/sing-box-core-update-1700000000000.zip''"
    by (simp add: download_tempPath_def e d path_join_def show_nat.simps)
  have x: "extname ''/tmp/sing-box-core-update-1700000000000.zip'' = ''.zip''"
    by (simp add: extname_def last_component_def)
  show ?thesis
    using p t x extname_asset_pathname downloadFile_direct [OF h, of installed_world] by simp
qed

text \<open>
  After a redirect the file is named after the URL redirected to, not after the asset's
  URL: a \<open>.tar.gz\<close> asset served from an address without an extension is stored as
  \<open>.zip\<close>.
\<close>

lemma downloadFile_redirect_extension:
  assumes "httpGet env url = HttpResponse 302 (Some url') []"
    and "url' \<noteq> []"
    and "httpGet env url' = HttpResponse 200 None content"
    and "urlPathname env url' = Some pathname'" "extname pathname' = []"
  shows "\<exists>w'. downloadFile env url w = Some (Inr (download_tempPath env url'), w')
           \<and> extname (download_tempPath env url') = ''.zip''"
proof -
  have "download_ext env url' = ''.zip''"
    using assms by (simp add: download_ext_def)
  then have "extname (download_tempPath env url') = ''.zip''"
    by (simp add: extname_download_tempPath)
  moreover have "\<exists>w'. downloadFile env url w = Some (Inr (download_tempPath env url'), w')"
    using assms by (subst downloadFile.simps) (simp add: Let_def truthy_def downloadFile_direct)
  ultimately show ?thesis by blast
qed

section \<open>CoreUpdateService: the retrying copy\<close>

lemma trace_emit [simp]: "trace (emit e w) = trace w @ [e]"
  by (simp add: emit_def)

lemma files_emit [simp]: "files (emit e w) = files w"
  by (simp add: emit_def)

lemma isUpdating_emit [simp]: "isUpdating (emit e w) = isUpdating w"
  by (simp add: emit_def)

lemma force_kill_trace:
  "platform env = ''win32'' \<and> lock_error err \<Longrightarrow>
   trace (force_kill env i w) = trace w @ kill_events env i err"
  by (simp add: force_kill_def kill_events_def addLog_def sleep_def Let_def)

lemma force_kill_frame [simp]:
  "files (force_kill env i w) = files w" "isUpdating (force_kill env i w) = isUpdating w"
  by (simp_all add: force_kill_def addLog_def sleep_def Let_def)

text \<open>One failed attempt that is not the last, followed by the rest of the loop.\<close>

lemma loop_step_fail:
  assumes "installCopy env i = CopyFails err d" "Suc i < retries"
  shows "\<exists>w1. copyFileWithRetry_loop env src dest retries i w
               = copyFileWithRetry_loop env src dest retries (Suc i) w1
             \<and> trace w1 = trace w @ failed_attempt env src dest retries i
             \<and> isUpdating w1 = isUpdating w
             \<and> (\<forall>p. p \<noteq> dest \<longrightarrow> files w1 p = files w p)
             \<and> (d = Untouched \<longrightarrow> files w1 = files w)"
proof -
  have i: "i < retries" "i \<noteq> retries - 1" using assms by auto
  show ?thesis
  proof (cases "platform env = ''win32'' \<and> lock_error err")
    case True
    show ?thesis
      apply (subst copyFileWithRetry_loop.simps)
      using assms(1) i True force_kill_trace [OF True, of i]
      by (cases d)
         (auto simp add: copyFileSync_def failed_attempt_def copy_failed_log_def
            addLog_def sleep_def Let_def intro!: exI)
  next
    case False
    show ?thesis
      apply (subst copyFileWithRetry_loop.simps)
      using assms(1) i False
      by (cases d)
         (auto simp add: copyFileSync_def failed_attempt_def copy_failed_log_def
            kill_events_def addLog_def sleep_def Let_def intro!: exI)
  qed
qed

lemma loop_step_ok:
  assumes "installCopy env i = CopyOk" "i < retries" "files w src = Some content"
  shows "copyFileWithRetry_loop env src dest retries i w
           = (Inr (), (emit (CopyFile src dest) w)
                        \<lparr> files := (files w)(dest := Some content) \<rparr>)"
  apply (subst copyFileWithRetry_loop.simps)
  using assms by (simp add: copyFileSync_def Let_def)

lemma loop_step_last:
  assumes "installCopy env i = CopyFails err d" "Suc i = retries"
  shows "\<exists>w1. copyFileWithRetry_loop env src dest retries i w = (Inl err, w1)
             \<and> trace w1 = trace w @ [CopyFile src dest, copy_failed_log retries i err]
             \<and> isUpdating w1 = isUpdating w
             \<and> (\<forall>p. p \<noteq> dest \<longrightarrow> files w1 p = files w p)
             \<and> (d = Untouched \<longrightarrow> files w1 = files w)"
proof -
  have i: "i < retries" "i = retries - 1" using assms by auto
  show ?thesis
    apply (subst copyFileWithRetry_loop.simps)
    using assms(1) i
    by (cases d) (auto simp add: copyFileSync_def copy_failed_log_def addLog_def Let_def)
qed


lemma loop_first_success:
  assumes "files w src = Some content" "src \<noteq> dest" "i \<le> k" "k < retries"
    and "installCopy env k = CopyOk"
    and "\<forall>j. i \<le> j \<and> j < k \<longrightarrow> installCopy env j \<noteq> CopyOk"
  shows "\<exists>w'. copyFileWithRetry_loop env src dest retries i w = (Inr (), w')
             \<and> trace w' = trace w @ concat (map (failed_attempt env src dest retries) [i..<k])
                                   @ [CopyFile src dest]
             \<and> files w' dest = Some content
             \<and> isUpdating w' = isUpdating w
             \<and> (\<forall>p. p \<noteq> dest \<longrightarrow> files w' p = files w p)"
  using assms
proof (induction "k - i" arbitrary: i w)
  case 0
  then have "i = k" by simp
  then show ?case
    using 0 by (simp add: loop_step_ok [of env k retries w src content dest])
next
  case (Suc n)
  then have lt: "i < k" by simp
  then obtain err d where f: "installCopy env i = CopyFails err d"
    using Suc.prems(6) by (cases "installCopy env i") auto
  have "Suc i < retries" using lt Suc.prems(4) by simp
  from loop_step_fail [OF f this, of src dest w]
  obtain w1 where w1:
    "copyFileWithRetry_loop env src dest retries i w
       = copyFileWithRetry_loop env src dest retries (Suc i) w1"
    "trace w1 = trace w @ failed_attempt env src dest retries i"
    "isUpdating w1 = isUpdating w"
    "\<forall>p. p \<noteq> dest \<longrightarrow> files w1 p = files w p"
    by blast
  have src1: "files w1 src = Some content"
    using w1(4) Suc.prems(1,2) by simp
  have "n = k - Suc i" using Suc.hyps(2) by simp
  from Suc.hyps(1) [OF this src1 Suc.prems(2) _ Suc.prems(4) Suc.prems(5)]
  obtain w' where w':
    "copyFileWithRetry_loop env src dest retries (Suc i) w1 = (Inr (), w')"
    "trace w' = trace w1 @ concat (map (failed_attempt env src dest retries) [Suc i..<k])
                  @ [CopyFile src dest]"
    "files w' dest = Some content"
    "isUpdating w' = isUpdating w1"
    "\<forall>p. p \<noteq> dest \<longrightarrow> files w' p = files w1 p"
    using lt Suc.prems(6) by auto
  have "[i..<k] = i # [Suc i..<k]"
    using lt by (simp add: upt_conv_Cons)
  then show ?case
    using w1 w' by simp
qed

lemma loop_all_fail:
  assumes "i < retries"
    and "\<forall>j. i \<le> j \<and> j < retries \<longrightarrow> installCopy env j \<noteq> CopyOk"
    and "installCopy env (retries - 1) = CopyFails err d"
  shows "\<exists>w'. copyFileWithRetry_loop env src dest retries i w = (Inl err, w')
             \<and> trace w' = trace w
                    @ concat (map (failed_attempt env src dest retries) [i..<retries - 1])
                    @ [CopyFile src dest, copy_failed_log retries (retries - 1) err]
             \<and> isUpdating w' = isUpdating w
             \<and> (\<forall>p. p \<noteq> dest \<longrightarrow> files w' p = files w p)"
  using assms
proof (induction "retries - 1 - i" arbitrary: i w)
  case 0
  then have i: "Suc i = retries" by simp
  then have "installCopy env i = CopyFails err d"
    using 0(4) by (metis diff_Suc_1)
  from loop_step_last [OF this i, of src dest w] i
  show ?case by (auto simp add: diff_Suc_1 [symmetric] simp del: diff_Suc_1)
next
  case (Suc n)
  then have lt: "Suc i < retries" by simp
  obtain e' d' where f: "installCopy env i = CopyFails e' d'"
    using Suc.prems(1,2) by (cases "installCopy env i") auto
  from loop_step_fail [OF f lt, of src dest w]
  obtain w1 where w1:
    "copyFileWithRetry_loop env src dest retries i w
       = copyFileWithRetry_loop env src dest retries (Suc i) w1"
    "trace w1 = trace w @ failed_attempt env src dest retries i"
    "isUpdating w1 = isUpdating w"
    "\<forall>p. p \<noteq> dest \<longrightarrow> files w1 p = files w p"
    by blast
  have "n = retries - 1 - Suc i" using Suc.hyps(2) by simp
  from Suc.hyps(1) [OF this lt _ Suc.prems(3), of w1]
  obtain w' where w':
    "copyFileWithRetry_loop env src dest retries (Suc i) w1 = (Inl err, w')"
    "trace w' = trace w1
        @ concat (map (failed_attempt env src dest retries) [Suc i..<retries - 1])
        @ [CopyFile src dest, copy_failed_log retries (retries - 1) err]"
    "isUpdating w' = isUpdating w1"
    "\<forall>p. p \<noteq> dest \<longrightarrow> files w' p = files w1 p"
    using Suc.prems(2) by auto
  have "[i..<retries - 1] = i # [Suc i..<retries - 1]"
    using lt by (simp add: upt_conv_Cons)
  then show ?case
    using w1 w' by simp
qed


lemma loop_all_fail_untouched:
  assumes "i < retries"
    and "\<forall>j. i \<le> j \<and> j < retries \<longrightarrow> (\<exists>e. installCopy env j = CopyFails e Untouched)"
  shows "files (snd (copyFileWithRetry_loop env src dest retries i w)) = files w"
  using assms
proof (induction "retries - 1 - i" arbitrary: i w)
  case 0
  then have i: "Suc i = retries" by simp
  obtain e where "installCopy env i = CopyFails e Untouched"
    using 0(2,3) by blast
  from loop_step_last [OF this i, of src dest w]
  show ?case by auto
next
  case (Suc n)
  then have lt: "Suc i < retries" by simp
  obtain e where "installCopy env i = CopyFails e Untouched"
    using Suc.prems by blast
  from loop_step_fail [OF this lt, of src dest w]
  obtain w1 where w1:
    "copyFileWithRetry_loop env src dest retries i w
       = copyFileWithRetry_loop env src dest retries (Suc i) w1"
    "files w1 = files w"
    by blast
  have "n = retries - 1 - Suc i" using Suc.hyps(2) by simp
  from Suc.hyps(1) [OF this lt, of w1] Suc.prems(2) w1
  show ?case by simp
qed

lemma count_failed_attempt:
  assumes "installCopy env j \<noteq> CopyOk"
  shows "length (filter (\<lambda>e. e = CopyFile src dest) (failed_attempt env src dest retries j)) = 1"
  using assms
  by (cases "installCopy env j")
     (simp_all add: failed_attempt_def copy_failed_log_def kill_events_def)

lemma count_failed_attempts:
  assumes "\<forall>j. i \<le> j \<and> j < k \<longrightarrow> installCopy env j \<noteq> CopyOk"
  shows "length (filter (\<lambda>e. e = CopyFile src dest)
           (concat (map (failed_attempt env src dest retries) [i..<k]))) = k - i"
  using assms
proof (induction "k - i" arbitrary: i)
  case 0
  then show ?case by simp
next
  case (Suc n)
  then have lt: "i < k" by simp
  then have u: "[i..<k] = i # [Suc i..<k]" by (simp add: upt_conv_Cons)
  have "n = k - Suc i" using Suc.hyps(2) by simp
  from Suc.hyps(1) [OF this] Suc.prems
  have "length (filter (\<lambda>e. e = CopyFile src dest)
           (concat (map (failed_attempt env src dest retries) [Suc i..<k]))) = k - Suc i"
    by simp
  moreover have "length (filter (\<lambda>e. e = CopyFile src dest)
                   (failed_attempt env src dest retries i)) = 1"
    using Suc.prems lt by (intro count_failed_attempt) simp
  ultimately show ?case
    using lt by (simp add: u)
qed

lemma new_events_append: "trace w' = trace w @ es \<Longrightarrow> new_events w w' = es"
  by (simp add: new_events_def)

lemma copyFileWithRetry_success:
  assumes "files w src = Some content" "src \<noteq> dest" "k < 3"
    and "installCopy env k = CopyOk" "\<forall>j<k. installCopy env j \<noteq> CopyOk"
  shows "\<exists>w'. copyFileWithRetry env src dest w = (Inr (), w')
           \<and> new_events w w' = concat (map (failed_attempt env src dest 3) [0..<k])
                                 @ [CopyFile src dest]
           \<and> files w' dest = Some content"
proof -
  have "\<forall>j. 0 \<le> j \<and> j < k \<longrightarrow> installCopy env j \<noteq> CopyOk"
    using assms(5) by simp
  from loop_first_success [OF assms(1,2) _ assms(3,4) this]
  obtain w' where
    "copyFileWithRetry_loop env src dest 3 0 w = (Inr (), w')"
    "trace w' = trace w @ concat (map (failed_attempt env src dest 3) [0..<k])
                  @ [CopyFile src dest]"
    "files w' dest = Some content"
    by blast
  then show ?thesis
    unfolding copyFileWithRetry_def by (simp add: new_events_append)
qed

lemma copyFileWithRetry_failure:
  assumes "\<forall>j<3. installCopy env j \<noteq> CopyOk" "installCopy env 2 = CopyFails err d"
  shows "\<exists>w'. copyFileWithRetry env src dest w = (Inl err, w')
           \<and> new_events w w' = concat (map (failed_attempt env src dest 3) [0..<2])
                                 @ [CopyFile src dest, copy_failed_log 3 2 err]"
proof -
  have a: "\<forall>j. 0 \<le> j \<and> j < 3 \<longrightarrow> installCopy env j \<noteq> CopyOk"
    using assms(1) by simp
  have b: "installCopy env (3 - 1) = CopyFails err d"
    using assms(2) by simp
  have c: "(0::nat) < 3" by simp
  from loop_all_fail [OF c a b, of src dest w]
  obtain w' where
    "copyFileWithRetry_loop env src dest 3 0 w = (Inl err, w')"
    "trace w' = trace w @ concat (map (failed_attempt env src dest 3) [0..<3 - 1])
                  @ [CopyFile src dest, copy_failed_log 3 (3 - 1) err]"
    by blast
  then show ?thesis
    unfolding copyFileWithRetry_def by (simp add: new_events_append)
qed

lemma count_with_last:
  assumes "\<forall>j. 0 \<le> j \<and> j < k \<longrightarrow> installCopy env j \<noteq> CopyOk"
    and "length (filter (\<lambda>e. e = CopyFile src dest) rest) = 1"
  shows "length (filter (\<lambda>e. e = CopyFile src dest)
           (concat (map (failed_attempt env src dest retries) [0..<k]) @ rest)) = Suc k"
  using count_failed_attempts [OF assms(1), of src dest retries] assms(2)
  by (simp only: filter_append length_append)

lemma copyFileWithRetry_count:
  assumes "files w src = Some content" "src \<noteq> dest"
  shows "length (filter (\<lambda>e. e = CopyFile src dest)
           (new_events w (snd (copyFileWithRetry env src dest w)))) \<le> 3"
proof (cases "\<exists>k<3. installCopy env k = CopyOk")
  case True
  define k where "k = (LEAST k. k < 3 \<and> installCopy env k = CopyOk)"
  have k: "k < 3 \<and> installCopy env k = CopyOk"
    unfolding k_def using True by (rule LeastI_ex)
  have least: "\<forall>j<k. installCopy env j \<noteq> CopyOk"
  proof (intro allI impI notI)
    fix j assume "j < k" "installCopy env j = CopyOk"
    then have "j < 3 \<and> installCopy env j = CopyOk" using k by simp
    then have "k \<le> j" unfolding k_def by (rule Least_le)
    then show False using \<open>j < k\<close> by simp
  qed
  have k3: "k < 3" and ok: "installCopy env k = CopyOk" using k by simp_all
  from copyFileWithRetry_success [OF assms k3 ok least]
  obtain w' where w': "copyFileWithRetry env src dest w = (Inr (), w')"
    "new_events w w' = concat (map (failed_attempt env src dest 3) [0..<k]) @ [CopyFile src dest]"
    by blast
  have "length (filter (\<lambda>e. e = CopyFile src dest) (new_events w w')) = Suc k"
    unfolding w'(2) using least by (intro count_with_last) simp_all
  then show ?thesis
    using w'(1) k3 by simp
next
  case False
  then have all: "\<forall>j<3. installCopy env j \<noteq> CopyOk" by blast
  then obtain err d where "installCopy env 2 = CopyFails err d"
    by (cases "installCopy env 2") auto
  from copyFileWithRetry_failure [OF all this, of src dest w]
  obtain w' where w': "copyFileWithRetry env src dest w = (Inl err, w')"
    "new_events w w' = concat (map (failed_attempt env src dest 3) [0..<2])
                         @ [CopyFile src dest, copy_failed_log 3 2 err]"
    by blast
  have "length (filter (\<lambda>e. e = CopyFile src dest) (new_events w w')) = Suc 2"
    unfolding w'(2) using all by (intro count_with_last) (simp_all add: copy_failed_log_def)
  then show ?thesis
    using w'(1) by simp
qed

text \<open>
  C5. Copying an existing source to another path, \<open>copyFileWithRetry\<close> makes at most
  3 attempts, each a direct copy of the source to the destination. When attempt \<open>k\<close>
  is the first to succeed it returns without error, the destination holding the source's
  content, after \<open>k\<close> failed attempts each followed by its recovery: on Windows with
  \<open>EBUSY\<close> or \<open>EPERM\<close> the forced termination of \<open>sing-box.exe\<close> (and a wait of
  one second when the command succeeded), then the backoff of one second. When all 3
  attempts fail, the error of the last attempt is thrown, with no recovery after it.
\<close>

theorem copyFileWithRetry_attempts:
  "files w src = Some content \<and> src \<noteq> dest \<longrightarrow>
     length (filter (\<lambda>e. e = CopyFile src dest)
       (new_events w (snd (copyFileWithRetry env src dest w)))) \<le> 3
   \<and> (\<forall>k. k < 3 \<and> installCopy env k = CopyOk \<and> (\<forall>j<k. installCopy env j \<noteq> CopyOk) \<longrightarrow>
         (\<exists>w'. copyFileWithRetry env src dest w = (Inr (), w')
            \<and> new_events w w' = concat (map (failed_attempt env src dest 3) [0..<k])
                                  @ [CopyFile src dest]
            \<and> files w' dest = Some content))
   \<and> (\<forall>err d. (\<forall>j<3. installCopy env j \<noteq> CopyOk) \<and> installCopy env 2 = CopyFails err d \<longrightarrow>
         (\<exists>w'. copyFileWithRetry env src dest w = (Inl err, w')
            \<and> new_events w w' = concat (map (failed_attempt env src dest 3) [0..<2])
                                  @ [CopyFile src dest, copy_failed_log 3 2 err]))"
proof (intro impI conjI allI)
  assume "files w src = Some content \<and> src \<noteq> dest"
  then show "length (filter (\<lambda>e. e = CopyFile src dest)
       (new_events w (snd (copyFileWithRetry env src dest w)))) \<le> 3"
    by (simp add: copyFileWithRetry_count)
next
  fix k
  assume "files w src = Some content \<and> src \<noteq> dest"
    and "k < 3 \<and> installCopy env k = CopyOk \<and> (\<forall>j<k. installCopy env j \<noteq> CopyOk)"
  then show "\<exists>w'. copyFileWithRetry env src dest w = (Inr (), w')
            \<and> new_events w w' = concat (map (failed_attempt env src dest 3) [0..<k])
                                  @ [CopyFile src dest]
            \<and> files w' dest = Some content"
    by (intro copyFileWithRetry_success) simp_all
next
  fix err d
  assume "(\<forall>j<3. installCopy env j \<noteq> CopyOk) \<and> installCopy env 2 = CopyFails err d"
  then show "\<exists>w'. copyFileWithRetry env src dest w = (Inl err, w')
            \<and> new_events w w' = concat (map (failed_attempt env src dest 3) [0..<2])
                                  @ [CopyFile src dest, copy_failed_log 3 2 err]"
    by (intro copyFileWithRetry_failure [of env err d]) simp_all
qed

text \<open>
  Witness for C5: on Windows the first copy meets a locked file (\<open>EBUSY\<close>), the
  process is killed, and the second attempt succeeds.
\<close>

theorem copyFileWithRetry_attempts_witness:
  "files unpacked_world ''/tmp/x/sing-box.exe'' = Some ''NEW''
   \<and> ''/tmp/x/sing-box.exe'' \<noteq> ''/opt/flowz/sing-box''
   \<and> installCopy locked_env 0 = CopyFails EBUSY Untouched
   \<and> installCopy locked_env 1 = CopyOk
   \<and> fst (copyFileWithRetry locked_env ''/tmp/x/sing-box.exe'' ''/opt/flowz/sing-box''
             unpacked_world) = Inr ()
   \<and> new_events unpacked_world
         (snd (copyFileWithRetry locked_env ''/tmp/x/sing-box.exe'' ''/opt/flowz/sing-box''
                 unpacked_world))
       = [CopyFile ''/tmp/x/sing-box.exe'' ''/opt/flowz/sing-box'',
          copy_failed_log 3 0 EBUSY,
          Log ''info'' ''File locked, attempting to force kill sing-box.exe...'',
          Exec ''taskkill /F /IM sing-box.exe'',
          Sleep 1000,
          Sleep 1000,
          CopyFile ''/tmp/x/sing-box.exe'' ''/opt/flowz/sing-box'']
   \<and> files (snd (copyFileWithRetry locked_env ''/tmp/x/sing-box.exe'' ''/opt/flowz/sing-box''
                    unpacked_world)) ''/opt/flowz/sing-box'' = Some ''NEW''"
proof -
  let ?src = "''/tmp/x/sing-box.exe''" and ?dest = "''/opt/flowz/sing-box''"
  have h: "files unpacked_world ?src = Some ''NEW'' \<and> ?src \<noteq> ?dest"
    by (simp add: unpacked_world_def)
  have o: "installCopy locked_env 0 = CopyFails EBUSY Untouched"
          "installCopy locked_env 1 = CopyOk"
    by (simp_all add: locked_env_def)
  have k: "(1::nat) < 3 \<and> installCopy locked_env 1 = CopyOk
           \<and> (\<forall>j<1. installCopy locked_env j \<noteq> CopyOk)"
    using o by simp
  have p: "platform locked_env = ''win32''" "taskkillOk locked_env 0"
    by (simp_all add: locked_env_def linux_env_def)
  have s: "concat (map (failed_attempt locked_env ?src ?dest 3) [0..<1])
           = [CopyFile ?src ?dest, copy_failed_log 3 0 EBUSY,
              Log ''info'' ''File locked, attempting to force kill sing-box.exe...'',
              Exec ''taskkill /F /IM sing-box.exe'', Sleep 1000, Sleep 1000]"
    using o p by (simp add: failed_attempt_def kill_events_def lock_error_def EBUSY_def)
  from mp [OF copyFileWithRetry_attempts [of unpacked_world ?src "''NEW''" ?dest locked_env] h]
  have "\<forall>k. k < 3 \<and> installCopy locked_env k = CopyOk
              \<and> (\<forall>j<k. installCopy locked_env j \<noteq> CopyOk) \<longrightarrow>
         (\<exists>w'. copyFileWithRetry locked_env ?src ?dest unpacked_world = (Inr (), w')
            \<and> new_events unpacked_world w'
                = concat (map (failed_attempt locked_env ?src ?dest 3) [0..<k])
                    @ [CopyFile ?src ?dest]
            \<and> files w' ?dest = Some ''NEW'')"
    by (rule conjunct1 [OF conjunct2])
  from this [rule_format, OF k]
  obtain w' where
    "copyFileWithRetry locked_env ?src ?dest unpacked_world = (Inr (), w')"
    "new_events unpacked_world w'
       = concat (map (failed_attempt locked_env ?src ?dest 3) [0..<1]) @ [CopyFile ?src ?dest]"
    "files w' ?dest = Some ''NEW''"
    by blast
  then show ?thesis
    using h o s by simp
qed

section \<open>CoreUpdateService: the single-flight flag and the rollback\<close>

subsection \<open>No step of an update touches the single-flight flag\<close>

lemma addLog_frame [simp]:
  "isUpdating (addLog l m w) = isUpdating w" "files (addLog l m w) = files w"
  "trace (addLog l m w) = trace w @ [Log l m]"
  by (simp_all add: addLog_def)

lemma sleep_frame [simp]:
  "isUpdating (sleep n w) = isUpdating w" "files (sleep n w) = files w"
  "trace (sleep n w) = trace w @ [Sleep n]"
  by (simp_all add: sleep_def)

lemma copyFileSync_flag:
  "copyFileSync outcome src dest w = (r, w') \<Longrightarrow> isUpdating w' = isUpdating w"
  by (auto simp add: copyFileSync_def Let_def split: copy_outcome.splits option.splits damage.splits)

lemma chmodSync_frame:
  "chmodSync answer p w = (r, w') \<Longrightarrow> isUpdating w' = isUpdating w \<and> files w' = files w"
  by (auto simp add: chmodSync_def split: option.splits)






lemma restoreBackup_flag: "isUpdating (restoreBackup env w) = isUpdating w"
  by (auto simp add: restoreBackup_def Let_def split: prod.splits sum.splits
      dest: copyFileSync_flag chmodSync_frame)






lemma in_temp_join [simp]: "in_temp env (path_join (tempDir env) name)"
  by (simp add: in_temp_def path_join_def)

lemma in_temp_join_join [simp]: "in_temp env (path_join (path_join (tempDir env) d) name)"
  by (simp add: in_temp_def path_join_def)

lemma downloadFile_frame:
  assumes "downloadFile env url w = Some y"
  shows "isUpdating (snd y) = isUpdating w
         \<and> (\<forall>p. \<not> in_temp env p \<longrightarrow> files (snd y) p = files w p)"
proof (rule downloadFile.raw_induct
    [where P = "\<lambda>env url w y. isUpdating (snd y) = isUpdating w
         \<and> (\<forall>p. \<not> in_temp env p \<longrightarrow> files (snd y) p = files w p)", OF _ assms],
    goal_cases)
  case (1 f env url w y)
  have t: "in_temp env (download_tempPath env url)"
    by (simp add: download_tempPath_def)
  show ?case
  proof (cases "httpGet env url")
    case (HttpResponse status location content)
    show ?thesis
    proof (cases "(status = 302 \<or> status = 301) \<and> truthy location")
      case True
      then have "f env (the location)
                   (w \<lparr> files := (files w)(download_tempPath env url := Some []) \<rparr>) = Some y"
        using 1(2) HttpResponse by (simp add: Let_def)
      from 1(1) [OF this] t show ?thesis by auto
    next
      case False
      then show ?thesis
        using 1(2) HttpResponse t by (auto simp add: Let_def split: if_splits)
    qed
  next
    case HttpStalled
    then show ?thesis using 1(2) by (simp add: Let_def)
  next
    case (HttpError err)
    then show ?thesis using 1(2) t by (auto simp add: Let_def)
  qed
qed



subsection \<open>Single flight\<close>








subsection \<open>Rollback after a failed install\<close>

lemma backup_neq_target [simp]:
  "getBackupPath env \<noteq> singBoxPath env" "singBoxPath env \<noteq> getBackupPath env"
  by (simp_all add: getBackupPath_def)

lemma extractCore_found:
  assumes "extraction env = Found rel content"
  shows "\<exists>corePath w'. extractCore env p w = (Inr corePath, w')
           \<and> isUpdating w' = isUpdating w
           \<and> (\<forall>q. \<not> in_temp env q \<longrightarrow> files w' q = files w q)"
  using assms by (auto simp add: extractCore_def Let_def)

lemma stopProxy_ok:
  assumes "\<forall>pm. proxyManager env = Some pm \<and> running pm \<longrightarrow> stopResult pm = None"
  shows "\<exists>wasRunning w'. stopProxy env w = (Inr wasRunning, w')
           \<and> isUpdating w' = isUpdating w \<and> files w' = files w"
  using assms by (auto simp add: stopProxy_def Let_def split: option.splits)

lemma backupCurrentCore_ok:
  assumes "files w (singBoxPath env) = Some old" "backupCopy env = CopyOk"
  shows "\<exists>w'. backupCurrentCore env w = (Inr (), w')
           \<and> isUpdating w' = isUpdating w
           \<and> files w' = (files w)(getBackupPath env := Some old)"
  using assms by (simp add: backupCurrentCore_def copyFileSync_def Let_def)

lemma copyFileWithRetry_all_fail:
  assumes "\<forall>j<3. installCopy env j \<noteq> CopyOk" "installCopy env 2 = CopyFails err d"
  shows "\<exists>w'. copyFileWithRetry env src dest w = (Inl err, w')
           \<and> isUpdating w' = isUpdating w
           \<and> (\<forall>p. p \<noteq> dest \<longrightarrow> files w' p = files w p)
           \<and> ((\<forall>j<3. \<exists>e. installCopy env j = CopyFails e Untouched) \<longrightarrow> files w' = files w)"
proof -
  have a: "\<forall>j. 0 \<le> j \<and> j < 3 \<longrightarrow> installCopy env j \<noteq> CopyOk"
    using assms(1) by simp
  have b: "installCopy env (3 - 1) = CopyFails err d"
    using assms(2) by simp
  have c: "(0::nat) < 3" by simp
  from loop_all_fail [OF c a b, of src dest w]
  obtain w' where w':
    "copyFileWithRetry_loop env src dest 3 0 w = (Inl err, w')"
    "isUpdating w' = isUpdating w"
    "\<forall>p. p \<noteq> dest \<longrightarrow> files w' p = files w p"
    by blast
  have "(\<forall>j<3. \<exists>e. installCopy env j = CopyFails e Untouched) \<longrightarrow> files w' = files w"
  proof
    assume "\<forall>j<3. \<exists>e. installCopy env j = CopyFails e Untouched"
    then have "\<forall>j. 0 \<le> j \<and> j < 3 \<longrightarrow> (\<exists>e. installCopy env j = CopyFails e Untouched)"
      by simp
    from loop_all_fail_untouched [OF c this, of src dest w] w'(1)
    show "files w' = files w" by simp
  qed
  then show ?thesis
    using w' by (simp add: copyFileWithRetry_def)
qed

lemma install_all_fail:
  assumes "files w (singBoxPath env) = Some old" "backupCopy env = CopyOk"
    and "targetDirExists env \<or> mkdirResult env = None"
    and "\<forall>j<3. installCopy env j \<noteq> CopyOk" "installCopy env 2 = CopyFails err d"
  shows "\<exists>w'. install env tempPath corePath wasRunning w = (Inl err, w')
           \<and> isUpdating w' = isUpdating w
           \<and> files w' (getBackupPath env) = Some old
           \<and> ((\<forall>j<3. \<exists>e. installCopy env j = CopyFails e Untouched)
                \<longrightarrow> files w' (singBoxPath env) = Some old)"
proof -
  from backupCurrentCore_ok [OF assms(1,2)]
  obtain w1 where w1: "backupCurrentCore env w = (Inr (), w1)"
    "isUpdating w1 = isUpdating w" "files w1 = (files w)(getBackupPath env := Some old)"
    by blast
  define w2 where "w2 = addLog ''info'' ''replacing the core file...'' w1"
  have "\<exists>w3. (if targetDirExists env then (Inr (), w2)
      else mkdirSync (mkdirResult env) (dirname (singBoxPath env)) w2) = (Inr (), w3)
      \<and> isUpdating w3 = isUpdating w2 \<and> files w3 = files w2"
    using assms(3) by (cases "targetDirExists env") (auto simp add: mkdirSync_def)
  then obtain w3 where w3:
    "(if targetDirExists env then (Inr (), w2)
      else mkdirSync (mkdirResult env) (dirname (singBoxPath env)) w2) = (Inr (), w3)"
    "isUpdating w3 = isUpdating w2" "files w3 = files w2"
    by blast
  from copyFileWithRetry_all_fail [OF assms(4,5), of corePath "singBoxPath env" w3]
  obtain w4 where w4:
    "copyFileWithRetry env corePath (singBoxPath env) w3 = (Inl err, w4)"
    "isUpdating w4 = isUpdating w3"
    "\<forall>p. p \<noteq> singBoxPath env \<longrightarrow> files w4 p = files w3 p"
    "(\<forall>j<3. \<exists>e. installCopy env j = CopyFails e Untouched) \<longrightarrow> files w4 = files w3"
    by blast
  have "install env tempPath corePath wasRunning w = (Inl err, w4)"
    using w1(1) w3(1) w4(1)
    by (cases "targetDirExists env") (auto simp add: install_def Let_def w2_def)
  moreover have "isUpdating w4 = isUpdating w"
    using w1(2) w3(2) w4(2) by (simp add: w2_def)
  moreover have "files w4 (getBackupPath env) = Some old"
    using w4(3) w3(3) w1(3) by (simp add: w2_def)
  moreover have "(\<forall>j<3. \<exists>e. installCopy env j = CopyFails e Untouched)
                \<longrightarrow> files w4 (singBoxPath env) = Some old"
    using w4(4) w3(3) w1(3) assms(1) by (simp add: w2_def)
  ultimately show ?thesis by blast
qed

lemma restoreBackup_files:
  assumes "files w (getBackupPath env) = Some old"
  shows "files (restoreBackup env w) (getBackupPath env) = Some old"
    and "CopyFile (getBackupPath env) (singBoxPath env) \<in> set (trace (restoreBackup env w))"
    and "restoreCopy env = CopyOk \<Longrightarrow> files (restoreBackup env w) (singBoxPath env) = Some old"
    and "\<exists>e. restoreCopy env = CopyFails e Untouched \<Longrightarrow>
         files (restoreBackup env w) (singBoxPath env) = files w (singBoxPath env)"
  using assms
  by (auto simp add: restoreBackup_def copyFileSync_def chmodSync_def Let_def
      split: copy_outcome.splits damage.splits option.splits)

text \<open>
  C1 (as amended). Let the previously installed binary exist, the install path and its
  backup lie outside the temporary directory, and the update reach the install step
  (download, unpacking, stopping the proxy, backup copy and target directory succeed).
  If the copy to the install path fails on all 3 attempts, \<open>updateCore\<close> throws the
  error of the last attempt with the flag cleared, after an attempt to copy the backup
  over the install path; the backup holds the previous binary; and the install path
  holds the previous binary when that restoring copy succeeds, or when no failed copy
  (to install or to restore) altered the install path.
\<close>

theorem updateCore_rollback:
  "\<not> isUpdating w \<and> files w (singBoxPath env) = Some old
   \<and> \<not> in_temp env (singBoxPath env) \<and> \<not> in_temp env (getBackupPath env)
   \<and> downloadFile env url
        (addLog ''info'' ''downloading the core file...'' (w \<lparr> isUpdating := True \<rparr>))
      = Some (Inr tempPath, w1)
   \<and> extraction env = Found rel content
   \<and> (\<forall>pm. proxyManager env = Some pm \<and> running pm \<longrightarrow> stopResult pm = None)
   \<and> backupCopy env = CopyOk
   \<and> (targetDirExists env \<or> mkdirResult env = None)
   \<and> (\<forall>j<3. installCopy env j \<noteq> CopyOk)
   \<and> installCopy env 2 = CopyFails err d
   \<longrightarrow>
   (\<exists>w'. updateCore env url w = Some (Inl err, w')
      \<and> \<not> isUpdating w'
      \<and> files w' (getBackupPath env) = Some old
      \<and> CopyFile (getBackupPath env) (singBoxPath env) \<in> set (trace w')
      \<and> (restoreCopy env = CopyOk \<longrightarrow> files w' (singBoxPath env) = Some old)
      \<and> ((\<forall>j<3. \<exists>e. installCopy env j = CopyFails e Untouched)
           \<and> (\<exists>e. restoreCopy env = CopyFails e Untouched)
           \<longrightarrow> files w' (singBoxPath env) = Some old))"
proof (intro impI, elim conjE)
  assume idle: "\<not> isUpdating w"
    and old: "files w (singBoxPath env) = Some old"
    and out: "\<not> in_temp env (singBoxPath env)" "\<not> in_temp env (getBackupPath env)"
    and dl: "downloadFile env url
        (addLog ''info'' ''downloading the core file...'' (w \<lparr> isUpdating := True \<rparr>))
      = Some (Inr tempPath, w1)"
    and ex: "extraction env = Found rel content"
    and pm: "\<forall>pm. proxyManager env = Some pm \<and> running pm \<longrightarrow> stopResult pm = None"
    and bk: "backupCopy env = CopyOk"
    and dir: "targetDirExists env \<or> mkdirResult env = None"
    and fails: "\<forall>j<3. installCopy env j \<noteq> CopyOk"
    and last: "installCopy env 2 = CopyFails err d"
  from downloadFile_frame [OF dl] old out
  have w1: "files w1 (singBoxPath env) = Some old" by simp
  from extractCore_found [OF ex, of tempPath "addLog ''info'' ''unpacking the core file...'' w1"]
  obtain corePath w2 where w2:
    "extractCore env tempPath (addLog ''info'' ''unpacking the core file...'' w1)
       = (Inr corePath, w2)"
    "\<forall>q. \<not> in_temp env q \<longrightarrow> files w2 q = files w1 q"
    by auto
  from stopProxy_ok [OF pm, of w2]
  obtain wasRunning w3 where w3:
    "stopProxy env w2 = (Inr wasRunning, w3)" "files w3 = files w2"
    by blast
  have old3: "files w3 (singBoxPath env) = Some old"
    using w1 w2(2) w3(2) out by simp
  from install_all_fail [OF old3 bk dir fails last, of tempPath corePath wasRunning]
  obtain w4 where w4:
    "install env tempPath corePath wasRunning w3 = (Inl err, w4)"
    "files w4 (getBackupPath env) = Some old"
    "(\<forall>j<3. \<exists>e. installCopy env j = CopyFails e Untouched)
       \<longrightarrow> files w4 (singBoxPath env) = Some old"
    by blast
  have t: "updateCore_try env url (w \<lparr> isUpdating := True \<rparr>) = Some (Inl err, w4)"
    using dl w2(1) w3(1) w4(1) by (simp add: updateCore_try_def)
  define w5 where "w5 = addLog ''error'' (''updating the core failed: '' @ err_message err) w4"
  define w6 where "w6 = restoreBackup env w5"
  have u: "updateCore env url w = Some (Inl err, w6 \<lparr> isUpdating := False \<rparr>)"
    using idle t by (simp add: updateCore_def Let_def w5_def w6_def)
  have b5: "files w5 (getBackupPath env) = Some old"
    using w4(2) by (simp add: w5_def)
  have "files w6 (getBackupPath env) = Some old"
    and "CopyFile (getBackupPath env) (singBoxPath env) \<in> set (trace w6)"
    and "restoreCopy env = CopyOk \<longrightarrow> files w6 (singBoxPath env) = Some old"
    and "(\<forall>j<3. \<exists>e. installCopy env j = CopyFails e Untouched)
           \<and> (\<exists>e. restoreCopy env = CopyFails e Untouched)
           \<longrightarrow> files w6 (singBoxPath env) = Some old"
    using restoreBackup_files [OF b5] w4(3) by (simp_all add: w6_def w5_def)
  then show "\<exists>w'. updateCore env url w = Some (Inl err, w')
      \<and> \<not> isUpdating w'
      \<and> files w' (getBackupPath env) = Some old
      \<and> CopyFile (getBackupPath env) (singBoxPath env) \<in> set (trace w')
      \<and> (restoreCopy env = CopyOk \<longrightarrow> files w' (singBoxPath env) = Some old)
      \<and> ((\<forall>j<3. \<exists>e. installCopy env j = CopyFails e Untouched)
           \<and> (\<exists>e. restoreCopy env = CopyFails e Untouched)
           \<longrightarrow> files w' (singBoxPath env) = Some old)"
    using u by simp
qed

lemmas update_eval =
  updateCore_def updateCore_try_def extractCore_def stopProxy_def install_def
  backupCurrentCore_def restoreBackup_def copyFileWithRetry_def copyFileWithRetry_loop.simps
  copyFileSync_def chmodSync_def unlinkSync_def mkdirSync_def cleanup_def force_kill_def
  getBackupPath_def addLog_def sleep_def emit_def Let_def path_join_def download_tempPath_def

lemma broken_disk_fields:
  "platform broken_disk_env = ''linux''"
  "tempDir broken_disk_env = ''/tmp''"
  "singBoxPath broken_disk_env = ''/opt/flowz/sing-box''"
  "dateNow broken_disk_env = 1700000000000"
  "urlPathname broken_disk_env asset_url = Some asset_pathname"
  "httpGet broken_disk_env asset_url = HttpResponse 200 None ''NEW''"
  "extraction broken_disk_env = Found ''sing-box-1.8.0-linux-amd64/sing-box'' ''NEW''"
  "proxyManager broken_disk_env = None"
  "backupCopy broken_disk_env = CopyOk"
  "targetDirExists broken_disk_env"
  "installCopy broken_disk_env j = CopyFails EIO (LeftAs (Some ''NE''))"
  "restoreCopy broken_disk_env = CopyFails EIO Untouched"
  by (simp_all add: broken_disk_env_def linux_env_def)

text \<open>
  Counterexample to C1 as stated: every copy to the install path breaks off leaving a
  partly written file and the restoring copy fails too (its error is caught and logged
  by \<open>restoreBackup\<close>). The backup was made, the original error is thrown, and the
  install path holds the partial file, not the previous binary.
\<close>

theorem updateCore_rollback_counterexample:
  "\<not> isUpdating installed_world
   \<and> files installed_world (singBoxPath broken_disk_env) = Some ''OLD''
   \<and> installCopy broken_disk_env 0 = CopyFails EIO (LeftAs (Some ''NE''))
   \<and> installCopy broken_disk_env 1 = CopyFails EIO (LeftAs (Some ''NE''))
   \<and> installCopy broken_disk_env 2 = CopyFails EIO (LeftAs (Some ''NE''))
   \<and> fst (the (updateCore broken_disk_env asset_url installed_world)) = Inl EIO
   \<and> files (snd (the (updateCore broken_disk_env asset_url installed_world)))
        (getBackupPath broken_disk_env) = Some ''OLD''
   \<and> files (snd (the (updateCore broken_disk_env asset_url installed_world)))
        (singBoxPath broken_disk_env) = Some ''NE''"
  by (simp add: update_eval broken_disk_fields downloadFile_direct [OF broken_disk_fields(6)]
      installed_world_def)

lemma failing_install_fields:
  "platform failing_install_env = ''linux''"
  "tempDir failing_install_env = ''/tmp''"
  "singBoxPath failing_install_env = ''/opt/flowz/sing-box''"
  "httpGet failing_install_env asset_url = HttpResponse 200 None ''NEW''"
  "extraction failing_install_env = Found ''sing-box-1.8.0-linux-amd64/sing-box'' ''NEW''"
  "proxyManager failing_install_env = None"
  "backupCopy failing_install_env = CopyOk"
  "targetDirExists failing_install_env"
  "installCopy failing_install_env j = CopyFails EIO (LeftAs (Some ''NE''))"
  "restoreCopy failing_install_env = CopyOk"
  by (simp_all add: failing_install_env_def broken_disk_env_def linux_env_def)

text \<open>Witness for C1: the same failing copies, and a restoring copy that succeeds.\<close>

theorem updateCore_rollback_witness:
  "\<not> isUpdating installed_world
   \<and> files installed_world (singBoxPath failing_install_env) = Some ''OLD''
   \<and> installCopy failing_install_env 0 = CopyFails EIO (LeftAs (Some ''NE''))
   \<and> installCopy failing_install_env 1 = CopyFails EIO (LeftAs (Some ''NE''))
   \<and> installCopy failing_install_env 2 = CopyFails EIO (LeftAs (Some ''NE''))
   \<and> restoreCopy failing_install_env = CopyOk
   \<and> fst (the (updateCore failing_install_env asset_url installed_world)) = Inl EIO
   \<and> \<not> isUpdating (snd (the (updateCore failing_install_env asset_url installed_world)))
   \<and> files (snd (the (updateCore failing_install_env asset_url installed_world)))
        (singBoxPath failing_install_env) = Some ''OLD''"
proof -
  let ?env = failing_install_env
  let ?w0 = "addLog ''info'' ''downloading the core file...''
               (installed_world \<lparr> isUpdating := True \<rparr>)"
  note f = failing_install_fields
  have idle: "\<not> isUpdating installed_world"
    and old: "files installed_world (singBoxPath ?env) = Some ''OLD''"
    by (simp_all add: installed_world_def f)
  have out: "\<not> in_temp ?env (singBoxPath ?env)" "\<not> in_temp ?env (getBackupPath ?env)"
    by (simp_all add: in_temp_def getBackupPath_def f)
  have dl: "downloadFile ?env asset_url ?w0
            = Some (Inr (download_tempPath ?env asset_url),
                    ?w0 \<lparr> files := (files ?w0)(download_tempPath ?env asset_url := Some ''NEW'') \<rparr>)"
    by (rule downloadFile_direct [OF f(4)])
  have fails: "\<forall>j<3. installCopy ?env j \<noteq> CopyOk"
    by (simp add: f)
  have hyp: "\<not> isUpdating installed_world
     \<and> files installed_world (singBoxPath ?env) = Some ''OLD''
     \<and> \<not> in_temp ?env (singBoxPath ?env) \<and> \<not> in_temp ?env (getBackupPath ?env)
     \<and> downloadFile ?env asset_url ?w0
        = Some (Inr (download_tempPath ?env asset_url),
                ?w0 \<lparr> files := (files ?w0)(download_tempPath ?env asset_url := Some ''NEW'') \<rparr>)
     \<and> extraction ?env = Found ''sing-box-1.8.0-linux-amd64/sing-box'' ''NEW''
     \<and> (\<forall>pm. proxyManager ?env = Some pm \<and> running pm \<longrightarrow> stopResult pm = None)
     \<and> backupCopy ?env = CopyOk
     \<and> (targetDirExists ?env \<or> mkdirResult ?env = None)
     \<and> (\<forall>j<3. installCopy ?env j \<noteq> CopyOk)
     \<and> installCopy ?env 2 = CopyFails EIO (LeftAs (Some ''NE''))"
    using idle old out dl fails by (simp add: f)
  from mp [OF updateCore_rollback hyp]
  obtain w' where
    "updateCore ?env asset_url installed_world = Some (Inl EIO, w')"
    "\<not> isUpdating w'"
    "restoreCopy ?env = CopyOk \<longrightarrow> files w' (singBoxPath ?env) = Some ''OLD''"
    by blast
  then show ?thesis
    using idle old by (simp add: f)
qed

text \<open>A run in which every step succeeds installs the new binary and keeps the backup.\<close>

lemma updateCore_success_example:
  "fst (the (updateCore linux_env asset_url installed_world)) = Inr True
   \<and> files (snd (the (updateCore linux_env asset_url installed_world)))
        ''/opt/flowz/sing-box'' = Some ''NEW''
   \<and> files (snd (the (updateCore linux_env asset_url installed_world)))
        ''/opt/flowz/sing-box.bak'' = Some ''OLD''
   \<and> \<not> isUpdating (snd (the (updateCore linux_env asset_url installed_world)))"
proof -
  have h: "httpGet linux_env asset_url = HttpResponse 200 None ''NEW''"
    by (simp add: linux_env_def)
  have f: "platform linux_env = ''linux''" "tempDir linux_env = ''/tmp''"
    "singBoxPath linux_env = ''/opt/flowz/sing-box''"
    "dateNow linux_env = 1700000000000"
    "extraction linux_env = Found ''sing-box-1.8.0-linux-amd64/sing-box'' ''NEW''"
    "proxyManager linux_env = None" "backupCopy linux_env = CopyOk"
    "targetDirExists linux_env" "installCopy linux_env 0 = CopyOk"
    "chmodResult linux_env = None" "unlinkTempResult linux_env = None"
    "unlinkCoreResult linux_env = None"
    by (simp_all add: linux_env_def)
  show ?thesis
    by (simp add: update_eval f downloadFile_direct [OF h] installed_world_def)
qed

section \<open>CoreUpdateService: the update check\<close>

lemma checkUpdate_returns: "\<exists>r. checkUpdate env = Inr r"
  by (simp add: checkUpdate_def split: sum.splits)

lemma checkUpdate_catch:
  "checkUpdate_try env = Inl err \<Longrightarrow>
   checkUpdate env = Inr (no_update unknown_version (Some (err_message err)))"
  by (simp add: checkUpdate_def)

lemma filter_stable_prereleases:
  "list_all prerelease_entry rs \<Longrightarrow> filter_stable rs = Inr []"
proof (induction rs)
  case Nil
  then show ?case by simp
next
  case (Cons r rs)
  then show ?case by (cases r) simp_all
qed

lemma checkUpdate_only_prereleases:
  assumes "getCurrentVersion env = Inr current" "fetchReleases env = Inr (JArr rs)"
    and "list_all prerelease_entry rs"
  shows "checkUpdate env =
         Inr (no_update current
                (Some (if rs = [] then no_release_message else no_stable_message)))"
  using assms filter_stable_prereleases [OF assms(3)]
  by (cases rs) (simp_all add: checkUpdate_def checkUpdate_try_def)


lemma checkUpdate_fetch_failure:
  assumes "getCurrentVersion env = Inr current" "fetchReleases env = Inl err"
  shows "checkUpdate env = Inr (no_update unknown_version (Some (err_message err)))"
  using assms by (simp add: checkUpdate_def checkUpdate_try_def)

lemma checkUpdate_version_failure:
  assumes "getCurrentVersion env = Inl err"
  shows "checkUpdate env = Inr (no_update unknown_version (Some (err_message err)))"
  using assms by (simp add: checkUpdate_def checkUpdate_try_def)

lemma fetchReleases_unparsable:
  "releasesFeed env = FetchDone 200 None \<Longrightarrow>
   fetchReleases env = Inl (Error ''Failed to parse GitHub response'')"
  by (simp add: fetchReleases_def)

lemma messages_nonempty:
  "no_release_message \<noteq> []" "no_stable_message \<noteq> []"
  by (simp_all add: no_release_message_def no_stable_message_def)

text \<open>
  C4. \<open>checkUpdate\<close> never throws: for every environment it returns a result. Whatever
  its \<open>try\<close> block throws (the version lookup failing, the request failing, a status
  other than 200, a body that does not parse, a feed of an unexpected shape) comes back as
  \<open>hasUpdate = false\<close> with the error's message. When the feed is fetched and holds only
  prerelease entries, or none, the result is \<open>hasUpdate = false\<close> with a non-empty error.
\<close>

theorem checkUpdate_never_throws:
  "(\<exists>r. checkUpdate env = Inr r)
   \<and> (\<forall>err. checkUpdate_try env = Inl err \<longrightarrow>
          checkUpdate env = Inr (no_update unknown_version (Some (err_message err))))
   \<and> (\<forall>err. getCurrentVersion env = Inl err
            \<or> (getCurrentVersion env = Inr current \<and> fetchReleases env = Inl err) \<longrightarrow>
          checkUpdate env = Inr (no_update unknown_version (Some (err_message err))))
   \<and> (releasesFeed env = FetchDone 200 None \<longrightarrow>
          fetchReleases env = Inl (Error ''Failed to parse GitHub response''))
   \<and> (getCurrentVersion env = Inr current \<and> fetchReleases env = Inr (JArr rs)
        \<and> list_all prerelease_entry rs \<longrightarrow>
          checkUpdate env =
            Inr (no_update current
                  (Some (if rs = [] then no_release_message else no_stable_message)))
          \<and> (if rs = [] then no_release_message else no_stable_message) \<noteq> [])"
  using checkUpdate_returns [of env] checkUpdate_catch [of env]
    checkUpdate_fetch_failure [of env current] checkUpdate_version_failure [of env]
    fetchReleases_unparsable [of env] checkUpdate_only_prereleases [of env current rs]
    messages_nonempty
  by auto

text \<open>Witness for C4: version 1.7.0 installed and a feed of two prereleases.\<close>

theorem checkUpdate_never_throws_witness:
  "getCurrentVersion (linux_env \<lparr> proxyManager := Some running_proxy,
                                   releasesFeed := FetchDone 200 (Some prerelease_feed) \<rparr>)
     = Inr ''1.7.0''
   \<and> fetchReleases (linux_env \<lparr> proxyManager := Some running_proxy,
                                   releasesFeed := FetchDone 200 (Some prerelease_feed) \<rparr>)
     = Inr prerelease_feed
   \<and> checkUpdate (linux_env \<lparr> proxyManager := Some running_proxy,
                                 releasesFeed := FetchDone 200 (Some prerelease_feed) \<rparr>)
     = Inr \<lparr> hasUpdate = False, currentVersion = ''1.7.0'', latestVersion = None,
             downloadUrl = None, releaseNotes = None, error = Some no_stable_message \<rparr>
   \<and> no_stable_message \<noteq> []"
proof -
  let ?env = "linux_env \<lparr> proxyManager := Some running_proxy,
                            releasesFeed := FetchDone 200 (Some prerelease_feed) \<rparr>"
  let ?rs = "[JObj [(''tag_name'', JStr ''v1.9.0-beta.1''), (''prerelease'', JBool True)],
              JObj [(''tag_name'', JStr ''v1.9.0-alpha.3''), (''prerelease'', JBool True)]]"
  have v: "getCurrentVersion ?env = Inr ''1.7.0''"
    by (simp add: getCurrentVersion_def running_proxy_def)
  have f: "fetchReleases ?env = Inr (JArr ?rs)"
    by (simp add: fetchReleases_def prerelease_feed_def)
  have p: "list_all prerelease_entry ?rs"
    by simp
  from checkUpdate_never_throws [of ?env "''1.7.0''" ?rs] v f p
  show ?thesis
    by (simp add: no_update_def prerelease_feed_def)
qed

text \<open>
  With version 1.7.0 installed and 1.8.0 the newest stable release with an asset for the
  platform, the check reports the update.
\<close>

lemma checkUpdate_finds_update:
  "checkUpdate (linux_env \<lparr> proxyManager := Some running_proxy,
                             releasesFeed := FetchDone 200 (Some stable_feed) \<rparr>)
   = Inr \<lparr> hasUpdate = True, currentVersion = ''1.7.0'', latestVersion = Some ''1.8.0'',
           downloadUrl = Some (JStr asset_url), releaseNotes = Some (JStr ''notes''),
           error = None \<rparr>"
proof -
  have c: "compareVersions ''1.8.0'' ''1.7.0'' = 1"
    by (simp add: compareVersions_eval)
  have p: "platform linux_env = ''linux''" "arch linux_env = ''x64''"
    by (simp_all add: linux_env_def)
  show ?thesis
    by (simp add: checkUpdate_def checkUpdate_try_def getCurrentVersion_def fetchReleases_def
        running_proxy_def stable_feed_def check_latest_def strip_v_def c p
        findSuitableAsset_def asset_matches_def platform_keyword_def arch_keyword_def
        toLowerCase_def to_lower_char_def endsWith_def Let_def)
qed

section \<open>SpeedTestService: one probe\<close>


lemma serverId_probe_result [simp]: "serverId (probe_result env server) = server_id server"
  by (auto simp add: probe_result_def failed_result_def testServer_try_def Let_def
      split: sum.splits)


lemma startTempSingbox_undecided:
  "list_all undecided_event pre \<Longrightarrow> startTempSingbox (pre @ es) = startTempSingbox es"
proof (induction pre)
  case Nil
  then show ?case by simp
next
  case (Cons e pre)
  then show ?case by (cases e) simp_all
qed

lemma await_response_ignored:
  "list_all ignored_data pre \<Longrightarrow> await_response (pre @ es) = await_response es"
proof (induction pre)
  case Nil
  then show ?case by simp
next
  case (Cons e pre)
  then show ?case by (cases e) simp_all
qed


lemma waitForPort_loop_error:
  "waitForPort_loop env timeoutMs elapsed i = Inl err \<Longrightarrow>
   err = Error (port_timeout_message (randomPort env))"
proof (induction env timeoutMs elapsed i rule: waitForPort_loop.induct)
  case (1 env timeoutMs elapsed i)
  show ?case
  proof (cases "elapsed < timeoutMs")
    case True
    show ?thesis
    proof (cases "portCheck env i")
      case PortOpen
      then show ?thesis
        using "1.prems" True by (subst (asm) waitForPort_loop.simps) simp
    next
      case (PortClosed e)
      have "waitForPort_loop env timeoutMs (elapsed + portCheckTime env i + 100) (i + 1) = Inl err"
        using "1.prems" True PortClosed by (subst (asm) waitForPort_loop.simps) simp
      from "1.IH" [OF True PortClosed this] show ?thesis .
    qed
  next
    case False
    then show ?thesis
      using "1.prems" by (subst (asm) waitForPort_loop.simps) simp
  qed
qed


lemma err_message_Error [simp]: "err_message (Error m) = m"
  by (simp add: Error_def)


lemma probe_stderr:
  assumes "procEvents env = pre @ Stderr d # rest" "list_all undecided_event pre"
  shows "probe_result env server = failed_result server (start_failed_message d)"
  using assms startTempSingbox_undecided [OF assms(2), of "Stderr d # rest"]
  by (simp add: probe_result_def testServer_try_def Let_def)







lemma probe_socket_error:
  assumes "start_ok env" "port_ok env" "socksConnect env = None"
    and "socketEvents env = pre @ SocketError err # rest" "list_all ignored_data pre"
  shows "probe_result env server = failed_result server (err_message err)"
  using assms await_response_ignored [OF assms(5), of "SocketError err # rest"]
  by (simp add: probe_result_def testServer_try_def start_ok_def port_ok_def
      httpGetViaSocks_def Let_def)

section \<open>SpeedTestService: all servers\<close>



lemma record_results_groups [simp]: "groups (record_results rs st) = groups st"
  by (induction rs arbitrary: st) simp_all




















section \<open>SpeedTestService: failures stay with their server\<close>




end
